theory Spec2Isabelle
  imports Complex_Main "HOL-Library.Sublist"
begin

section \<open>Values of the JavaScript runtime\<close>

text \<open>
  The program is TypeScript; at run time its types are erased and the values it
  handles are what \<^verbatim>\<open>JSON.parse\<close> and the HTTP client hand over. A JSON number is a
  double: a finite one is the real number it denotes (the two zeros are not told
  apart, the program only tests a number for being zero), an out-of-range literal
  is an infinity.
\<close>

datatype number = Finite real | PlusInfinity | MinusInfinity

text \<open>
  An object is the list of its own properties; the parser leaves one entry per
  key, so the lookup \<open>map_of\<close> reads the property.
\<close>

datatype json =
    JNull
  | JBool bool
  | JNum number
  | JStr string
  | JArr "json list"
  | JObj "(string \<times> json) list"

text \<open>
  A thrown \<^verbatim>\<open>Error\<close> object: its \<^verbatim>\<open>name\<close> (\<^verbatim>\<open>Error\<close>, \<^verbatim>\<open>TypeError\<close>,
  \<^verbatim>\<open>SyntaxError\<close>, \<^verbatim>\<open>AxiosError\<close>) and its \<^verbatim>\<open>message\<close>.
\<close>

datatype js_error = JsError (name: string) (message: string)

definition Error :: "string \<Rightarrow> js_error" where
  "Error msg = JsError ''Error'' msg"

definition TypeError :: "string \<Rightarrow> js_error" where
  "TypeError msg = JsError ''TypeError'' msg"

text \<open>\<^verbatim>\<open>Error.prototype.toString\<close>, which \<^verbatim>\<open>String(error)\<close> and a template literal call.\<close>

definition error_toString :: "js_error \<Rightarrow> string" where
  "error_toString e =
     (if name e = [] then message e
      else if message e = [] then name e
      else name e @ '': '' @ message e)"

text \<open>
  \<^verbatim>\<open>error.message || error\<close> inside a template literal, and
  \<^verbatim>\<open>error?.message || String(error)\<close>: the message unless it is the empty string.
\<close>

definition message_or_error :: "js_error \<Rightarrow> string" where
  "message_or_error e = (if message e \<noteq> [] then message e else error_toString e)"

text \<open>Truthiness of a value; \<open>None\<close> is \<^verbatim>\<open>undefined\<close>.\<close>

fun truthy :: "json \<Rightarrow> bool" where
  "truthy JNull = False"
| "truthy (JBool b) = b"
| "truthy (JNum (Finite x)) = (x \<noteq> 0)"
| "truthy (JNum PlusInfinity) = True"
| "truthy (JNum MinusInfinity) = True"
| "truthy (JStr s) = (s \<noteq> [])"
| "truthy (JArr xs) = True"
| "truthy (JObj kvs) = True"

fun truthy_opt :: "json option \<Rightarrow> bool" where
  "truthy_opt None = False"
| "truthy_opt (Some v) = truthy v"

text \<open>
  \<^verbatim>\<open>v.k\<close> for a value other than \<^verbatim>\<open>null\<close> and a property name \<open>k\<close> that is neither
  an index nor defined on a prototype (the program reads \<^verbatim>\<open>categories\<close>,
  \<^verbatim>\<open>extracted_fields\<close>, \<^verbatim>\<open>cpt_codes\<close>, \<^verbatim>\<open>choices\<close>, \<^verbatim>\<open>message\<close>, \<^verbatim>\<open>content\<close>):
  an own property of an object, \<^verbatim>\<open>undefined\<close> on anything else.
\<close>

fun js_prop :: "json \<Rightarrow> string \<Rightarrow> json option" where
  "js_prop (JObj kvs) k = map_of kvs k"
| "js_prop v k = None"

text \<open>
  \<^verbatim>\<open>v[0]\<close> for a value other than \<^verbatim>\<open>null\<close>: the first element of an array, the
  first character of a string, the own property \<^verbatim>\<open>"0"\<close> of an object.
\<close>

fun js_index0 :: "json \<Rightarrow> json option" where
  "js_index0 (JArr []) = None"
| "js_index0 (JArr (x # xs)) = Some x"
| "js_index0 (JStr []) = None"
| "js_index0 (JStr (c # cs)) = Some (JStr [c])"
| "js_index0 (JObj kvs) = map_of kvs ''0''"
| "js_index0 v = None"

text \<open>
  \<^verbatim>\<open>Object.hasOwn(v, k)\<close> for a value other than \<^verbatim>\<open>null\<close> and a name \<open>k\<close> that is
  neither an index nor \<^verbatim>\<open>length\<close>: only an object has such an own property.
\<close>

fun hasOwn :: "json \<Rightarrow> string \<Rightarrow> bool" where
  "hasOwn (JObj kvs) k = (k \<in> set (map fst kvs))"
| "hasOwn v k = False"

fun isArray :: "json \<Rightarrow> bool" where
  "isArray (JArr xs) = True"
| "isArray v = False"

fun isArray_opt :: "json option \<Rightarrow> bool" where
  "isArray_opt None = False"
| "isArray_opt (Some v) = isArray v"

text \<open>\<^verbatim>\<open>typeof v === "string"\<close>.\<close>

fun is_string :: "json \<Rightarrow> bool" where
  "is_string (JStr s) = True"
| "is_string v = False"

text \<open>The elements \<^verbatim>\<open>Array.prototype.some\<close> visits.\<close>

fun elements :: "json option \<Rightarrow> json list" where
  "elements (Some (JArr xs)) = xs"
| "elements v = []"

section \<open>types.ts\<close>

datatype Category =
    ELIGIBILITY
  | CODING_ERROR
  | PRIOR_AUTHORIZATION
  | INCORRECT_PATIENT_INFO
  | PAYER_SPECIFIC_RULE
  | OTHER

fun Category_value :: "Category \<Rightarrow> string" where
  "Category_value ELIGIBILITY = ''Eligibility''"
| "Category_value CODING_ERROR = ''Coding Error''"
| "Category_value PRIOR_AUTHORIZATION = ''Prior Authorization''"
| "Category_value INCORRECT_PATIENT_INFO = ''Incorrect Patient Info''"
| "Category_value PAYER_SPECIFIC_RULE = ''Payer Specific Rule''"
| "Category_value OTHER = ''Other''"

text \<open>\<^verbatim>\<open>Object.values(Category)\<close>, in declaration order.\<close>

definition Category_values :: "json list" where
  "Category_values =
     map (\<lambda>c. JStr (Category_value c))
       [ELIGIBILITY, CODING_ERROR, PRIOR_AUTHORIZATION, INCORRECT_PATIENT_INFO,
        PAYER_SPECIFIC_RULE, OTHER]"

text \<open>
  A claim at run time is the object \<^verbatim>\<open>readClaims\<close> parsed from the input file.
  \<^verbatim>\<open>isValidClaimInput\<close> lets an object through when \<^verbatim>\<open>id\<close> and \<^verbatim>\<open>denial_note\<close>
  are own keys holding strings; it does not look at any other key, and the
  interface \<^verbatim>\<open>ClaimInput\<close> does not exclude one. So a claim is its two strings
  and \<open>others\<close>, the own keys besides them in the order of the file (one entry per
  key).
\<close>

record ClaimInput =
  id :: string
  denial_note :: string
  others :: "(string \<times> json) list"

text \<open>
  \<^verbatim>\<open>ClaimOutput extends ClaimInput\<close>: the object an object literal builds from a
  spread of the claim. The keys such a literal may set are fields of their own,
  each a JSON value or \<open>None\<close> when the object has no such key (or holds
  \<^verbatim>\<open>undefined\<close> there); \<open>others\<close> are the remaining keys.
\<close>

record ClaimOutput = ClaimInput +
  categories :: "json option"
  extracted_fields :: "json option"
  error :: "json option"

text \<open>
  \<^verbatim>\<open>{...claim}\<close>: every own key of the claim is copied, also one named
  \<^verbatim>\<open>categories\<close>, \<^verbatim>\<open>extracted_fields\<close> or \<^verbatim>\<open>error\<close>.
\<close>

definition spread :: "ClaimInput \<Rightarrow> ClaimOutput" where
  "spread claim =
     \<lparr>id = id claim, denial_note = denial_note claim,
      others = filter (\<lambda>(k, v). k \<notin> set [''categories'', ''extracted_fields'', ''error''])
                 (others claim),
      categories = map_of (others claim) ''categories'',
      extracted_fields = map_of (others claim) ''extracted_fields'',
      error = map_of (others claim) ''error''\<rparr>"

record LLMConfig =
  apiKey :: string
  baseUrl :: string
  model :: string

section \<open>llmClient.ts: the response validator\<close>

text \<open>
  \<^verbatim>\<open>JSON.parse\<close> belongs to the runtime: it is the parameter \<open>parse\<close>, which
  returns the value or the \<^verbatim>\<open>SyntaxError\<close> it throws.
\<close>

type_synonym json_parse = "string \<Rightarrow> js_error + json"

text \<open>
  The four checks of \<^verbatim>\<open>parseLLMResponse\<close>, in the order of the source. Reading
  \<^verbatim>\<open>responseJSON.categories\<close> of \<^verbatim>\<open>null\<close> throws the runtime's \<^verbatim>\<open>TypeError\<close>
  (the message is Node's); the surrounding \<^verbatim>\<open>try\<close> rethrows whatever it catches.
\<close>

definition parseLLMResponse :: "json_parse \<Rightarrow> string \<Rightarrow> js_error + json" where
  "parseLLMResponse parse response =
     (case parse response of
        Inl e \<Rightarrow> Inl e
      | Inr responseJSON \<Rightarrow>
          if responseJSON = JNull then
            Inl (TypeError ''Cannot read properties of null (reading 'categories')'')
          else
            let cats = js_prop responseJSON ''categories'' in
            if \<not> truthy_opt cats \<or> \<not> isArray_opt cats \<or>
               list_ex (\<lambda>v. \<not> is_string v) (elements cats)
            then Inl (Error ''Incorrect categories format in LLM Response'')
            else if list_ex (\<lambda>category. category \<notin> set Category_values) (elements cats)
            then Inl (Error ''Invalid category values in LLM Response'')
            else
              (case js_prop responseJSON ''extracted_fields'' of
                 None \<Rightarrow> Inl (Error ''Incorrect extracted_fields format in LLM Response'')
               | Some ef \<Rightarrow>
                   if \<not> truthy ef \<or>
                      \<not> list_all (\<lambda>field. hasOwn ef field)
                          [''payer'', ''cpt_codes'', ''suggested_action'']
                   then Inl (Error ''Incorrect extracted_fields format in LLM Response'')
                   else
                     let codes = js_prop ef ''cpt_codes'' in
                     if \<not> isArray_opt codes \<or>
                        list_ex (\<lambda>code. \<not> is_string code) (elements codes)
                     then Inl (Error ''Incorrect cpt_codes in LLM Response'')
                     else Inr responseJSON))"

section \<open>llmClient.ts: the prompt\<close>

definition SYSTEM_PROMPT :: string where
  "SYSTEM_PROMPT =
     ''You are a medical billing expert. Your task is to classify claim denial notes into structured JSON. Always respond with valid JSON only, no explanations or extra text.''"

text \<open>The template literal of \<^verbatim>\<open>createUserPrompt\<close>, line by line.\<close>

definition newline :: string where
  "newline = [CHR 0x0A]"

definition createUserPrompt :: "string \<Rightarrow> string" where
  \<open>createUserPrompt denialNote =
     ''Classify the following medical claim denial note.'' @ newline @
     newline @
     ''Denial Note:'' @ newline @
     ''"'' @ denialNote @ ''"'' @ newline @
     newline @
     ''Return a JSON object with this structure:'' @ newline @
     ''{'' @ newline @
     ''  "categories": [ "one or more from: Eligibility, Coding Error, Prior Authorization, Incorrect Patient Info, Payer Specific Rule, Other" ],'' @ newline @
     ''  "extracted_fields": {'' @ newline @
     ''    "payer": "string or null",'' @ newline @
     ''    "cpt_codes": ["list of codes if any, else []"],'' @ newline @
     ''    "suggested_action": "short plain English suggestion"'' @ newline @
     ''  }'' @ newline @
     ''}'' @ newline\<close>

section \<open>llmClient.ts: the transport client\<close>

record chat_message =
  role :: string
  content :: string

text \<open>What \<^verbatim>\<open>callAPI\<close> hands to \<^verbatim>\<open>axios.post\<close>: endpoint, headers, body, timeout.\<close>

record request =
  endpoint :: string
  authorization :: string
  content_type :: string
  x_title :: string
  body_model :: string
  messages :: "chat_message list"
  temperature :: real
  max_tokens :: nat
  timeout :: nat

text \<open>
  \<^verbatim>\<open>axios.post\<close> resolves with a response, of which the program reads the parsed
  body \<^verbatim>\<open>response.data\<close>, or rejects with an error (a status outside 2xx, a
  timeout, a network failure).
\<close>

datatype post_outcome = Resolved json | Rejected js_error

text \<open>
  What the program does to the outside, in order: a request sent, the two
  \<^verbatim>\<open>setTimeout\<close> waits (the backoff of \<^verbatim>\<open>callAPI\<close>, the pacing of
  \<^verbatim>\<open>processClaims\<close>, in milliseconds), the start of one claim's classification,
  the progress line (processed, total) and the final line feed on standard output.
\<close>

datatype event =
    AxiosPost request
  | Backoff nat
  | Classify ClaimInput
  | Progress nat nat
  | Pacing nat
  | LineFeed

text \<open>
  The outside world: the state \<open>net\<close> of whatever answers the requests, and the
  events so far. The HTTP client is the parameter \<open>post\<close>: a request and the
  network's state give an outcome and the next state.
\<close>

record 'n world =
  net :: 'n
  trace :: "event list"

type_synonym 'n axios_post = "request \<Rightarrow> 'n \<Rightarrow> post_outcome \<times> 'n"

definition emit :: "event \<Rightarrow> 'n world \<Rightarrow> 'n world" where
  "emit ev w = w\<lparr>trace := trace w @ [ev]\<rparr>"

definition axios_post :: "'n axios_post \<Rightarrow> request \<Rightarrow> 'n world \<Rightarrow> post_outcome \<times> 'n world" where
  "axios_post post req w =
     (let (outcome, n') = post req (net w)
      in (outcome, emit (AxiosPost req) (w\<lparr>net := n'\<rparr>)))"

text \<open>
  The test on the response in \<^verbatim>\<open>callAPI\<close>: each link of the \<^verbatim>\<open>&&\<close> chain must be
  truthy, and the content must be a string.
\<close>

definition response_content :: "json \<Rightarrow> string option" where
  "response_content data =
     (if \<not> truthy data then None
      else (case js_prop data ''choices'' of
        None \<Rightarrow> None
      | Some choices \<Rightarrow>
          if \<not> truthy choices then None
          else (case js_index0 choices of
            None \<Rightarrow> None
          | Some choice \<Rightarrow>
              if \<not> truthy choice then None
              else (case js_prop choice ''message'' of
                None \<Rightarrow> None
              | Some msg \<Rightarrow>
                  if \<not> truthy msg then None
                  else (case js_prop msg ''content'' of
                    Some (JStr s) \<Rightarrow> Some s
                  | _ \<Rightarrow> None)))))"

text \<open>One pass through the inner \<^verbatim>\<open>try\<close>: the content, or the error caught.\<close>

definition attempt_result :: "post_outcome \<Rightarrow> js_error + string" where
  "attempt_result outcome =
     (case outcome of
        Rejected e \<Rightarrow> Inl e
      | Resolved data \<Rightarrow>
          (case response_content data of
             Some s \<Rightarrow> Inr s
           | None \<Rightarrow> Inl (Error ''Malformed response from OpenRouter API'')))"

definition build_request :: "LLMConfig \<Rightarrow> chat_message list \<Rightarrow> request" where
  "build_request config msgs =
     \<lparr>endpoint = baseUrl config @ ''/chat/completions'',
      authorization = ''Bearer '' @ apiKey config,
      content_type = ''application/json'',
      x_title = ''Medical Claim Issue Classifier'',
      body_model = model config,
      messages = msgs,
      temperature = 2 / 10,
      max_tokens = 512,
      timeout = 30000\<rparr>"

text \<open>
  The error thrown after the loop; \<open>lastError\<close> is \<open>None\<close> for \<^verbatim>\<open>null\<close>, which
  the template literal prints as \<^verbatim>\<open>null\<close>.
\<close>

definition attempts_failed :: "js_error option \<Rightarrow> js_error" where
  "attempts_failed lastError =
     Error (''OpenRouter API call failed after 3 attempts: '' @
            (case lastError of None \<Rightarrow> ''null'' | Some e \<Rightarrow> message_or_error e))"

text \<open>The \<^verbatim>\<open>for\<close> loop of \<^verbatim>\<open>callAPI\<close>, from \<open>attempt\<close> on.\<close>

function callAPI_loop ::
  "'n axios_post \<Rightarrow> request \<Rightarrow> nat \<Rightarrow> js_error option \<Rightarrow> 'n world \<Rightarrow>
     (js_error + string) \<times> 'n world" where
  "callAPI_loop post req attempt lastError w =
     (if attempt \<le> 3 then
        (let (outcome, w1) = axios_post post req w in
         case attempt_result outcome of
           Inr s \<Rightarrow> (Inr s, w1)
         | Inl e \<Rightarrow>
             callAPI_loop post req (attempt + 1) (Some e)
               (if attempt < 3 then emit (Backoff (500 * 2 ^ (attempt - 1))) w1 else w1))
      else (Inl (attempts_failed lastError), w))"
  by pat_completeness auto
termination
  by (relation "measure (\<lambda>(post, req, attempt, lastError, w). 4 - attempt)") auto

definition callAPI ::
  "'n axios_post \<Rightarrow> LLMConfig \<Rightarrow> chat_message list \<Rightarrow> 'n world \<Rightarrow>
     (js_error + string) \<times> 'n world" where
  "callAPI post config msgs w = callAPI_loop post (build_request config msgs) 1 None w"

section \<open>llmClient.ts: the classification service\<close>

definition classification_error :: "ClaimInput \<Rightarrow> js_error \<Rightarrow> js_error" where
  "classification_error claim e =
     Error (''Failed to classify claim denial (id: '' @ id claim @ ''): '' @ message_or_error e)"

text \<open>The local constant \<^verbatim>\<open>messages\<close> of \<^verbatim>\<open>classifyDenial\<close>.\<close>

definition classify_messages :: "ClaimInput \<Rightarrow> chat_message list" where
  "classify_messages claim =
     [\<lparr>role = ''system'', content = SYSTEM_PROMPT\<rparr>,
      \<lparr>role = ''user'', content = createUserPrompt (denial_note claim)\<rparr>]"

definition classifyDenial ::
  "'n axios_post \<Rightarrow> json_parse \<Rightarrow> LLMConfig \<Rightarrow> ClaimInput \<Rightarrow> 'n world \<Rightarrow>
     (js_error + ClaimOutput) \<times> 'n world" where
  "classifyDenial post parse config claim w =
     (let (called, w') = callAPI post config (classify_messages claim) w
      in case called of
           Inl e \<Rightarrow> (Inl (classification_error claim e), w')
         | Inr llmResponse \<Rightarrow>
             (case parseLLMResponse parse llmResponse of
                Inl e \<Rightarrow> (Inl (classification_error claim e), w')
              | Inr parsed \<Rightarrow>
                  (Inr ((spread claim)
                          \<lparr>categories := js_prop parsed ''categories'',
                           extracted_fields := js_prop parsed ''extracted_fields''\<rparr>),
                   w')))"

section \<open>index.ts: the batch runner\<close>

text \<open>The placeholder pushed for a failed claim.\<close>

definition failed_output :: "ClaimInput \<Rightarrow> js_error \<Rightarrow> ClaimOutput" where
  "failed_output claim e =
     (spread claim)
       \<lparr>categories := Some (JArr []),
        extracted_fields := Some (JObj []),
        error := Some (JStr (message_or_error e))\<rparr>"

text \<open>
  The \<^verbatim>\<open>for\<close> loop of \<^verbatim>\<open>processClaims\<close> over the claims still to do; the state is
  \<open>results\<close>, \<open>processed\<close> and the world; \<open>total_n\<close> is the constant \<^verbatim>\<open>total\<close>.
\<close>

fun processClaims_loop ::
  "'n axios_post \<Rightarrow> json_parse \<Rightarrow> LLMConfig \<Rightarrow> nat \<Rightarrow> ClaimInput list \<Rightarrow>
     ClaimOutput list \<times> nat \<times> 'n world \<Rightarrow> ClaimOutput list \<times> nat \<times> 'n world" where
  "processClaims_loop post parse llmClient total_n [] st = st"
| "processClaims_loop post parse llmClient total_n (claim # rest) (results, processed, w) =
     (let (classified, w1) = classifyDenial post parse llmClient claim (emit (Classify claim) w);
          results1 = results @ [case classified of
                                  Inr output \<Rightarrow> output
                                | Inl e \<Rightarrow> failed_output claim e];
          processed1 = processed + 1;
          w2 = emit (Progress processed1 total_n) w1;
          w3 = (if processed1 < total_n then emit (Pacing 500) w2 else w2)
      in processClaims_loop post parse llmClient total_n rest (results1, processed1, w3))"

definition processClaims ::
  "'n axios_post \<Rightarrow> json_parse \<Rightarrow> LLMConfig \<Rightarrow> ClaimInput list \<Rightarrow> 'n world \<Rightarrow>
     ClaimOutput list \<times> 'n world" where
  "processClaims post parse llmClient claims w =
     (let (results, processed, w') =
            processClaims_loop post parse llmClient (length claims) claims ([], 0, w)
      in (results, emit LineFeed w'))"

section \<open>fileUtils.ts\<close>

text \<open>
  \<^verbatim>\<open>resolve\<close> of \<^verbatim>\<open>node:path\<close> is the parameter \<open>resolve\<close>; \<open>fileType\<close> is not
  used by the body.
\<close>

definition validateFilePath :: "(string \<Rightarrow> string) \<Rightarrow> string \<Rightarrow> string \<Rightarrow> js_error + string" where
  "validateFilePath resolve filePath fileType =
     (if filePath = [] then Inl (Error ''No file path provided'')
      else if \<not> suffix ''.json'' filePath then Inl (Error ''File does not end with .json'')
      else Inr (resolve filePath))"

text \<open>A POSIX path is absolute when it starts at the root.\<close>

fun absolute :: "string \<Rightarrow> bool" where
  "absolute [] = False"
| "absolute (c # cs) = (c = CHR ''/'')"

section \<open>The schema of a model reply, in the words of the specification\<close>

text \<open>
  The rules the specification gives for the reply, each on the parsed value:
  the top-level value is an object; \<^verbatim>\<open>categories\<close> exists, is an array and every
  element is a string; every element of \<^verbatim>\<open>categories\<close> is one of the six category
  values; \<^verbatim>\<open>extracted_fields\<close> exists as an object and has the keys \<^verbatim>\<open>payer\<close>,
  \<^verbatim>\<open>cpt_codes\<close> and \<^verbatim>\<open>suggested_action\<close>; \<^verbatim>\<open>extracted_fields.cpt_codes\<close> is an
  array and every element is a string.
\<close>

datatype rule =
    ParseableJSON
  | TopLevelObject
  | CategoriesStrings
  | CategoriesAllowed
  | ExtractedFieldsKeys
  | CptCodesStrings

fun is_object :: "json \<Rightarrow> bool" where
  "is_object (JObj kvs) = True"
| "is_object v = False"

definition allowed_category :: "json \<Rightarrow> bool" where
  "allowed_category v =
     (v \<in> set (map JStr [''Eligibility'', ''Coding Error'', ''Prior Authorization'',
                          ''Incorrect Patient Info'', ''Payer Specific Rule'', ''Other'']))"

definition rule_top_level :: "json \<Rightarrow> bool" where
  "rule_top_level j = is_object j"

definition rule_categories :: "json \<Rightarrow> bool" where
  "rule_categories j =
     (case js_prop j ''categories'' of
        Some (JArr xs) \<Rightarrow> list_all is_string xs
      | _ \<Rightarrow> False)"

definition rule_category_values :: "json \<Rightarrow> bool" where
  "rule_category_values j = list_all allowed_category (elements (js_prop j ''categories''))"

definition rule_extracted_fields :: "json \<Rightarrow> bool" where
  "rule_extracted_fields j =
     (case js_prop j ''extracted_fields'' of
        Some (JObj kvs) \<Rightarrow>
          list_all (\<lambda>k. k \<in> set (map fst kvs)) [''payer'', ''cpt_codes'', ''suggested_action'']
      | _ \<Rightarrow> False)"

definition rule_cpt_codes :: "json \<Rightarrow> bool" where
  "rule_cpt_codes j =
     (case js_prop j ''extracted_fields'' of
        Some ef \<Rightarrow>
          (case js_prop ef ''cpt_codes'' of
             Some (JArr codes) \<Rightarrow> list_all is_string codes
           | _ \<Rightarrow> False)
      | None \<Rightarrow> False)"

text \<open>The first rule the outcome of parsing breaks, in the order of the specification.\<close>

definition first_violation :: "js_error + json \<Rightarrow> rule option" where
  "first_violation parsed =
     (case parsed of
        Inl e \<Rightarrow> Some ParseableJSON
      | Inr j \<Rightarrow>
          if \<not> rule_top_level j then Some TopLevelObject
          else if \<not> rule_categories j then Some CategoriesStrings
          else if \<not> rule_category_values j then Some CategoriesAllowed
          else if \<not> rule_extracted_fields j then Some ExtractedFieldsKeys
          else if \<not> rule_cpt_codes j then Some CptCodesStrings
          else None)"

text \<open>The four errors \<^verbatim>\<open>parseLLMResponse\<close> constructs, one for each of its checks.\<close>

definition validation_errors :: "js_error list" where
  "validation_errors =
     [Error ''Incorrect categories format in LLM Response'',
      Error ''Invalid category values in LLM Response'',
      Error ''Incorrect extracted_fields format in LLM Response'',
      Error ''Incorrect cpt_codes in LLM Response'']"

section \<open>Reading a run of the batch runner\<close>

text \<open>The events of the transport client.\<close>

fun is_transport :: "event \<Rightarrow> bool" where
  "is_transport (AxiosPost req) = True"
| "is_transport (Backoff ms) = True"
| "is_transport ev = False"

text \<open>The claims whose classification a trace starts, in order.\<close>

fun classified :: "event list \<Rightarrow> ClaimInput list" where
  "classified [] = []"
| "classified (Classify claim # evs) = claim # classified evs"
| "classified (ev # evs) = classified evs"

text \<open>The pacing waits of a trace, in order.\<close>

fun pacings :: "event list \<Rightarrow> nat list" where
  "pacings [] = []"
| "pacings (Pacing ms # evs) = ms # pacings evs"
| "pacings (ev # evs) = pacings evs"

text \<open>The attempts and the pacing waits of a trace, in order.\<close>

fun is_step :: "event \<Rightarrow> bool" where
  "is_step (Classify claim) = True"
| "is_step (Pacing ms) = True"
| "is_step ev = False"

definition runner_steps :: "event list \<Rightarrow> event list" where
  "runner_steps evs = filter is_step evs"

text \<open>
  The pacing in the words of the specification: a wait of 500 ms between any two
  successive attempts, none after the last.
\<close>

fun pacing_between :: "ClaimInput list \<Rightarrow> event list" where
  "pacing_between [] = []"
| "pacing_between [claim] = [Classify claim]"
| "pacing_between (claim # next # rest) =
     Classify claim # Pacing 500 # pacing_between (next # rest)"

text \<open>
  The world in which the loop of \<^verbatim>\<open>processClaims\<close> reaches the claim at index \<open>i\<close>
  (the loop run over the claims before it), and the outcome of classifying that
  claim there.
\<close>

definition world_before ::
  "'n axios_post \<Rightarrow> json_parse \<Rightarrow> LLMConfig \<Rightarrow> ClaimInput list \<Rightarrow> 'n world \<Rightarrow> nat \<Rightarrow> 'n world" where
  "world_before post parse llmClient claims w i =
     snd (snd (processClaims_loop post parse llmClient (length claims) (take i claims)
                 ([], 0, w)))"

definition attempt_at ::
  "'n axios_post \<Rightarrow> json_parse \<Rightarrow> LLMConfig \<Rightarrow> ClaimInput list \<Rightarrow> 'n world \<Rightarrow> nat \<Rightarrow>
     js_error + ClaimOutput" where
  "attempt_at post parse llmClient claims w i =
     fst (classifyDenial post parse llmClient (claims ! i)
            (emit (Classify (claims ! i)) (world_before post parse llmClient claims w i)))"

section \<open>Test doubles\<close>

text \<open>
  A transport that answers the \<open>n\<close>-th request with the \<open>n\<close>-th scripted outcome
  (its state counts the requests), and the outcomes the scripts are made of.
\<close>

definition scripted :: "post_outcome list \<Rightarrow> nat axios_post" where
  "scripted outcomes req n =
     (if n < length outcomes then outcomes ! n
      else Rejected (JsError ''AxiosError'' ''Network Error''),
      n + 1)"

definition timed_out :: post_outcome where
  "timed_out = Rejected (JsError ''AxiosError'' ''timeout of 30000ms exceeded'')"

definition completion :: "string \<Rightarrow> post_outcome" where
  "completion s =
     Resolved (JObj [(''choices'', JArr [JObj [(''message'', JObj [(''content'', JStr s)])]])])"

definition test_config :: LLMConfig where
  "test_config = \<lparr>apiKey = ''key'', baseUrl = ''https://openrouter.ai/api/v1'',
                  model = ''anthropic/claude-3.5-sonnet''\<rparr>"

text \<open>A \<open>resolve\<close> for paths without dot segments, from the working directory \<open>cwd\<close>.\<close>

definition resolve_from :: "string \<Rightarrow> string \<Rightarrow> string" where
  "resolve_from cwd p = (if absolute p then p else cwd @ ''/'' @ p)"

text \<open>
  A \<^verbatim>\<open>JSON.parse\<close> known on the listed texts. On any other text it answers as
  the parser does on the empty text; the proofs below parse listed texts only.
\<close>

definition parse_table :: "(string \<times> json) list \<Rightarrow> json_parse" where
  "parse_table table text =
     (case map_of table text of
        Some j \<Rightarrow> Inr j
      | None \<Rightarrow> Inl (JsError ''SyntaxError'' ''Unexpected end of JSON input''))"

text \<open>The reply of the end-to-end scenario of the specification, and its value.\<close>

definition coding_error_text :: string where
  \<open>coding_error_text =
     ''{"categories":["Coding Error"],"extracted_fields":{"payer":null,"cpt_codes":[],"suggested_action":"Resubmit"}}''\<close>

definition coding_error_reply :: json where
  "coding_error_reply =
     JObj [(''categories'', JArr [JStr ''Coding Error'']),
           (''extracted_fields'',
            JObj [(''payer'', JNull), (''cpt_codes'', JArr []),
                  (''suggested_action'', JStr ''Resubmit'')])]"

text \<open>A reply with a category outside the six, and a reply with no category.\<close>

definition billing_text :: string where
  \<open>billing_text =
     ''{"categories":["Billing"],"extracted_fields":{"payer":null,"cpt_codes":[],"suggested_action":"Resubmit"}}''\<close>

definition billing_reply :: json where
  "billing_reply =
     JObj [(''categories'', JArr [JStr ''Billing'']),
           (''extracted_fields'',
            JObj [(''payer'', JNull), (''cpt_codes'', JArr []),
                  (''suggested_action'', JStr ''Resubmit'')])]"

definition no_category_text :: string where
  \<open>no_category_text =
     ''{"categories":[],"extracted_fields":{"payer":"Aetna","cpt_codes":["99213"],"suggested_action":"Call the payer"}}''\<close>

definition no_category_reply :: json where
  "no_category_reply =
     JObj [(''categories'', JArr []),
           (''extracted_fields'',
            JObj [(''payer'', JStr ''Aetna''), (''cpt_codes'', JArr [JStr ''99213'']),
                  (''suggested_action'', JStr ''Call the payer'')])]"

definition test_parse :: json_parse where
  "test_parse =
     parse_table [(coding_error_text, coding_error_reply), (billing_text, billing_reply),
                  (no_category_text, no_category_reply), (''null'', JNull),
                  (''[]'', JArr [])]"

definition claim_C1 :: ClaimInput where
  "claim_C1 = \<lparr>id = ''C1'', denial_note = ''CPT code invalid'', others = []\<rparr>"

definition claim_C2 :: ClaimInput where
  "claim_C2 = \<lparr>id = ''C2'', denial_note = ''Patient was not eligible'', others = []\<rparr>"

text \<open>
  The claim of the input file
  \<^verbatim>\<open>[{"id":"C1","denial_note":"CPT code invalid","error":"stale"}]\<close>, which
  \<^verbatim>\<open>readClaims\<close> accepts, and a transport that answers it with the reply of the
  scenario.
\<close>

definition stale_claim :: ClaimInput where
  "stale_claim =
     \<lparr>id = ''C1'', denial_note = ''CPT code invalid'', others = [(''error'', JStr ''stale'')]\<rparr>"

definition one_reply :: "nat axios_post" where
  "one_reply = scripted [completion coding_error_text]"

text \<open>
  A run over two claims: the first request is answered with the reply of the
  scenario, the next three time out.
\<close>

definition one_reply_then_timeouts :: "nat axios_post" where
  "one_reply_then_timeouts =
     scripted [completion coding_error_text, timed_out, timed_out, timed_out]"

definition fresh_world :: "nat world" where
  "fresh_world = \<lparr>net = 0, trace = []\<rparr>"

section \<open>Properties of the transport client\<close>

declare callAPI_loop.simps [simp del]

lemma trace_emit [simp]: "trace (emit ev w) = trace w @ [ev]"
  by (simp add: emit_def)

lemma net_emit [simp]: "net (emit ev w) = net w"
  by (simp add: emit_def)

lemma trace_axios_post:
  "axios_post post req w = (outcome, w1) \<Longrightarrow> trace w1 = trace w @ [AxiosPost req]"
  by (auto simp: axios_post_def split: prod.splits)

text \<open>The loop, one attempt at a time.\<close>

lemma callAPI_loop_done:
  "callAPI_loop post req 4 l w = (Inl (attempts_failed l), w)"
  by (subst callAPI_loop.simps) simp

lemma callAPI_loop_third:
  "axios_post post req w = (outcome, w1) \<Longrightarrow>
   callAPI_loop post req 3 l w =
     (case attempt_result outcome of
        Inr s \<Rightarrow> (Inr s, w1)
      | Inl e \<Rightarrow> (Inl (attempts_failed (Some e)), w1))"
  by (subst callAPI_loop.simps) (simp add: callAPI_loop_done split: sum.splits)

lemma callAPI_loop_second:
  "axios_post post req w = (outcome, w1) \<Longrightarrow>
   callAPI_loop post req 2 l w =
     (case attempt_result outcome of
        Inr s \<Rightarrow> (Inr s, w1)
      | Inl e \<Rightarrow> callAPI_loop post req 3 (Some e) (emit (Backoff 1000) w1))"
  by (subst callAPI_loop.simps) (simp add: numeral_3_eq_3 numeral_2_eq_2 split: sum.splits)

lemma callAPI_loop_first:
  "axios_post post req w = (outcome, w1) \<Longrightarrow>
   callAPI_loop post req 1 l w =
     (case attempt_result outcome of
        Inr s \<Rightarrow> (Inr s, w1)
      | Inl e \<Rightarrow> callAPI_loop post req 2 (Some e) (emit (Backoff 500) w1))"
  by (subst callAPI_loop.simps) (simp add: numeral_2_eq_2 split: sum.splits)

lemma suffix_message_or_error: "suffix (message e) (pre @ message_or_error e)"
  by (simp add: message_or_error_def suffix_def)

lemma message_attempts_failed:
  "message (attempts_failed (Some e)) =
     ''OpenRouter API call failed after 3 attempts: '' @ message_or_error e"
  by (simp add: attempts_failed_def Error_def)

text \<open>A value that has a property, or an element at index 0, is truthy.\<close>

lemma js_prop_truthy: "js_prop v k = Some x \<Longrightarrow> truthy v"
  by (cases v) simp_all

lemma js_index0_truthy: "js_index0 v = Some x \<Longrightarrow> truthy v"
  by (cases v rule: js_index0.cases) simp_all

lemma response_content_string:
  assumes "js_prop data ''choices'' = Some choices"
      and "js_index0 choices = Some choice"
      and "js_prop choice ''message'' = Some msg"
      and "js_prop msg ''content'' = Some (JStr s)"
  shows "response_content data = Some s"
  using assms js_prop_truthy [OF assms(1)] js_index0_truthy [OF assms(2)]
    js_prop_truthy [OF assms(3)] js_prop_truthy [OF assms(4)]
  by (simp add: response_content_def)

lemma attempt_result_completion [simp]: "attempt_result (completion s) = Inr s"
  by (simp add: attempt_result_def completion_def response_content_def)

lemma attempt_result_timed_out [simp]:
  "attempt_result timed_out = Inl (JsError ''AxiosError'' ''timeout of 30000ms exceeded'')"
  by (simp add: attempt_result_def timed_out_def)

text \<open>
  C4. \<^verbatim>\<open>callAPI\<close> makes at most three requests. Name the outcome of the first
  request \<open>o1\<close>, of the second (sent after a wait of 500 ms) \<open>o2\<close>, of the third
  (sent after a further wait of 1000 ms) \<open>o3\<close>. The first of them that carries a
  string \<^verbatim>\<open>choices[0].message.content\<close> ends the call with that string, and
  nothing is sent or waited for after it. When all three fail the call ends right
  after the third request, with no wait, raising an error whose message is
  \<^verbatim>\<open>OpenRouter API call failed after 3 attempts: \<close> followed by the message of
  the third failure. A body whose \<^verbatim>\<open>choices[0].message.content\<close> is a string
  makes the attempt succeed with that string.
\<close>

theorem callAPI_three_attempts:
  assumes a1: "axios_post post (build_request config msgs) w = (o1, w1)"
      and a2: "axios_post post (build_request config msgs) (emit (Backoff 500) w1) = (o2, w2)"
      and a3: "axios_post post (build_request config msgs) (emit (Backoff 1000) w2) = (o3, w3)"
  shows "(attempt_result o1 = Inr s \<longrightarrow>
            callAPI post config msgs w = (Inr s, w1) \<and>
            trace w1 = trace w @ [AxiosPost (build_request config msgs)]) \<and>
         (attempt_result o1 = Inl e1 \<and> attempt_result o2 = Inr s \<longrightarrow>
            callAPI post config msgs w = (Inr s, w2) \<and>
            trace w2 = trace w @ [AxiosPost (build_request config msgs), Backoff 500,
                                  AxiosPost (build_request config msgs)]) \<and>
         (attempt_result o1 = Inl e1 \<and> attempt_result o2 = Inl e2 \<and> attempt_result o3 = Inr s \<longrightarrow>
            callAPI post config msgs w = (Inr s, w3) \<and>
            trace w3 = trace w @ [AxiosPost (build_request config msgs), Backoff 500,
                                  AxiosPost (build_request config msgs), Backoff 1000,
                                  AxiosPost (build_request config msgs)]) \<and>
         (attempt_result o1 = Inl e1 \<and> attempt_result o2 = Inl e2 \<and> attempt_result o3 = Inl e3 \<longrightarrow>
            callAPI post config msgs w = (Inl (attempts_failed (Some e3)), w3) \<and>
            message (attempts_failed (Some e3)) =
              ''OpenRouter API call failed after 3 attempts: '' @ message_or_error e3 \<and>
            suffix (message e3) (message (attempts_failed (Some e3))) \<and>
            trace w3 = trace w @ [AxiosPost (build_request config msgs), Backoff 500,
                                  AxiosPost (build_request config msgs), Backoff 1000,
                                  AxiosPost (build_request config msgs)]) \<and>
         (js_prop data ''choices'' = Some choices \<and> js_index0 choices = Some choice \<and>
          js_prop choice ''message'' = Some msg \<and> js_prop msg ''content'' = Some (JStr s) \<longrightarrow>
            attempt_result (Resolved data) = Inr s)"
proof -
  note t1 = trace_axios_post [OF a1]
  note t2 = trace_axios_post [OF a2]
  note t3 = trace_axios_post [OF a3]
  have first: "callAPI post config msgs w =
      (case attempt_result o1 of
         Inr s \<Rightarrow> (Inr s, w1)
       | Inl e \<Rightarrow> callAPI_loop post (build_request config msgs) 2 (Some e)
                    (emit (Backoff 500) w1))"
    unfolding callAPI_def by (rule callAPI_loop_first [OF a1])
  have second: "callAPI_loop post (build_request config msgs) 2 l (emit (Backoff 500) w1) =
      (case attempt_result o2 of
         Inr s \<Rightarrow> (Inr s, w2)
       | Inl e \<Rightarrow> callAPI_loop post (build_request config msgs) 3 (Some e)
                    (emit (Backoff 1000) w2))" for l
    by (rule callAPI_loop_second [OF a2])
  have third: "callAPI_loop post (build_request config msgs) 3 l (emit (Backoff 1000) w2) =
      (case attempt_result o3 of
         Inr s \<Rightarrow> (Inr s, w3)
       | Inl e \<Rightarrow> (Inl (attempts_failed (Some e)), w3))" for l
    by (rule callAPI_loop_third [OF a3])
  have body: "js_prop data ''choices'' = Some choices \<and> js_index0 choices = Some choice \<and>
      js_prop choice ''message'' = Some msg \<and> js_prop msg ''content'' = Some (JStr s) \<longrightarrow>
        attempt_result (Resolved data) = Inr s"
    by (auto simp: attempt_result_def dest: response_content_string)
  have runs: "(attempt_result o1 = Inr s \<longrightarrow>
            callAPI post config msgs w = (Inr s, w1) \<and>
            trace w1 = trace w @ [AxiosPost (build_request config msgs)]) \<and>
         (attempt_result o1 = Inl e1 \<and> attempt_result o2 = Inr s \<longrightarrow>
            callAPI post config msgs w = (Inr s, w2) \<and>
            trace w2 = trace w @ [AxiosPost (build_request config msgs), Backoff 500,
                                  AxiosPost (build_request config msgs)]) \<and>
         (attempt_result o1 = Inl e1 \<and> attempt_result o2 = Inl e2 \<and> attempt_result o3 = Inr s \<longrightarrow>
            callAPI post config msgs w = (Inr s, w3) \<and>
            trace w3 = trace w @ [AxiosPost (build_request config msgs), Backoff 500,
                                  AxiosPost (build_request config msgs), Backoff 1000,
                                  AxiosPost (build_request config msgs)]) \<and>
         (attempt_result o1 = Inl e1 \<and> attempt_result o2 = Inl e2 \<and> attempt_result o3 = Inl e3 \<longrightarrow>
            callAPI post config msgs w = (Inl (attempts_failed (Some e3)), w3) \<and>
            message (attempts_failed (Some e3)) =
              ''OpenRouter API call failed after 3 attempts: '' @ message_or_error e3 \<and>
            suffix (message e3) (message (attempts_failed (Some e3))) \<and>
            trace w3 = trace w @ [AxiosPost (build_request config msgs), Backoff 500,
                                  AxiosPost (build_request config msgs), Backoff 1000,
                                  AxiosPost (build_request config msgs)])"
    by (simp add: first second third t1 t2 t3 suffix_message_or_error message_attempts_failed
          del: append.simps)
  from runs body show ?thesis by blast
qed

theorem callAPI_three_attempts_witness:
  "callAPI (scripted [timed_out, timed_out, completion ''{}'']) test_config []
       \<lparr>net = 0, trace = []\<rparr> =
     (Inr ''{}'',
      \<lparr>net = 3,
       trace = [AxiosPost (build_request test_config []), Backoff 500,
                AxiosPost (build_request test_config []), Backoff 1000,
                AxiosPost (build_request test_config [])]\<rparr>) \<and>
   callAPI (scripted [timed_out, Resolved (JStr ''Bad Gateway''), timed_out, completion ''{}''])
       test_config [] \<lparr>net = 0, trace = []\<rparr> =
     (Inl (Error ''OpenRouter API call failed after 3 attempts: timeout of 30000ms exceeded''),
      \<lparr>net = 3,
       trace = [AxiosPost (build_request test_config []), Backoff 500,
                AxiosPost (build_request test_config []), Backoff 1000,
                AxiosPost (build_request test_config [])]\<rparr>)"
proof -
  let ?req = "build_request test_config []"
  let ?P = "AxiosPost ?req"
  let ?s1 = "scripted [timed_out, timed_out, completion ''{}'']"
  let ?s2 = "scripted [timed_out, Resolved (JStr ''Bad Gateway''), timed_out, completion ''{}'']"
  have a1: "axios_post ?s1 ?req \<lparr>net = 0, trace = []\<rparr> = (timed_out, \<lparr>net = 1, trace = [?P]\<rparr>)"
    by (simp add: axios_post_def scripted_def emit_def)
  have a2: "axios_post ?s1 ?req (emit (Backoff 500) \<lparr>net = 1, trace = [?P]\<rparr>) =
              (timed_out, \<lparr>net = 2, trace = [?P, Backoff 500, ?P]\<rparr>)"
    by (simp add: axios_post_def scripted_def emit_def)
  have a3: "axios_post ?s1 ?req (emit (Backoff 1000) \<lparr>net = 2, trace = [?P, Backoff 500, ?P]\<rparr>) =
              (completion ''{}'', \<lparr>net = 3, trace = [?P, Backoff 500, ?P, Backoff 1000, ?P]\<rparr>)"
    by (simp add: axios_post_def scripted_def emit_def)
  have b1: "axios_post ?s2 ?req \<lparr>net = 0, trace = []\<rparr> = (timed_out, \<lparr>net = 1, trace = [?P]\<rparr>)"
    by (simp add: axios_post_def scripted_def emit_def)
  have b2: "axios_post ?s2 ?req (emit (Backoff 500) \<lparr>net = 1, trace = [?P]\<rparr>) =
              (Resolved (JStr ''Bad Gateway''), \<lparr>net = 2, trace = [?P, Backoff 500, ?P]\<rparr>)"
    by (simp add: axios_post_def scripted_def emit_def)
  have b3: "axios_post ?s2 ?req (emit (Backoff 1000) \<lparr>net = 2, trace = [?P, Backoff 500, ?P]\<rparr>) =
              (timed_out, \<lparr>net = 3, trace = [?P, Backoff 500, ?P, Backoff 1000, ?P]\<rparr>)"
    by (simp add: axios_post_def scripted_def emit_def)
  have m: "attempt_result (Resolved (JStr ''Bad Gateway'')) =
             Inl (Error ''Malformed response from OpenRouter API'')"
    by (simp add: attempt_result_def response_content_def)
  have msg: "attempts_failed (Some (JsError ''AxiosError'' ''timeout of 30000ms exceeded'')) =
               Error ''OpenRouter API call failed after 3 attempts: timeout of 30000ms exceeded''"
    by (simp add: attempts_failed_def message_or_error_def)
  show ?thesis
    using callAPI_three_attempts [OF a1 a2 a3, of "''{}''"]
          callAPI_three_attempts [OF b1 b2 b3]
    by (simp add: m msg)
qed

section \<open>Properties of the path validation\<close>

text \<open>
  C9. \<^verbatim>\<open>validateFilePath\<close> rejects the empty path and every path that does not
  end in \<^verbatim>\<open>.json\<close>; a path that ends in \<^verbatim>\<open>.json\<close> is accepted and the result is
  that path as \<^verbatim>\<open>resolve\<close> of \<^verbatim>\<open>node:path\<close> returns it, which is absolute since
  \<^verbatim>\<open>resolve\<close> returns absolute paths.
\<close>

theorem validateFilePath_json:
  assumes "\<forall>p. absolute (resolve p)"
  shows "validateFilePath resolve [] fileType = Inl (Error ''No file path provided'') \<and>
         (filePath \<noteq> [] \<and> \<not> suffix ''.json'' filePath \<longrightarrow>
            validateFilePath resolve filePath fileType =
              Inl (Error ''File does not end with .json'')) \<and>
         (suffix ''.json'' filePath \<longrightarrow>
            validateFilePath resolve filePath fileType = Inr (resolve filePath) \<and>
            absolute (resolve filePath))"
  using assms by (auto simp: validateFilePath_def)

theorem validateFilePath_json_witness:
  "(\<forall>p. absolute (resolve_from ''/work'' p)) \<and>
   validateFilePath (resolve_from ''/work'') [] ''json'' = Inl (Error ''No file path provided'') \<and>
   validateFilePath (resolve_from ''/work'') ''claims'' ''json'' =
     Inl (Error ''File does not end with .json'') \<and>
   validateFilePath (resolve_from ''/work'') ''/abs/claims.json'' ''json'' =
     Inr ''/abs/claims.json'' \<and>
   validateFilePath (resolve_from ''/work'') ''out.json'' ''json'' = Inr ''/work/out.json''"
proof -
  have r: "\<forall>p. absolute (resolve_from ''/work'' p)"
    by (simp add: resolve_from_def)
  have s1: "''claims'' \<noteq> [] \<and> \<not> suffix ''.json'' ''claims''"
    by (simp add: suffix_def)
  have s2: "suffix ''.json'' ''/abs/claims.json''"
    by (simp add: suffix_def)
  have s3: "suffix ''.json'' ''out.json''"
    by (simp add: suffix_def)
  have v2: "resolve_from ''/work'' ''/abs/claims.json'' = ''/abs/claims.json''"
    by (simp add: resolve_from_def)
  have v3: "resolve_from ''/work'' ''out.json'' = ''/work/out.json''"
    by (simp add: resolve_from_def)
  show ?thesis
    using r s1 s2 s3
      validateFilePath_json [OF r, of "''json''" "''claims''"]
      validateFilePath_json [OF r, of "''json''" "''/abs/claims.json''"]
      validateFilePath_json [OF r, of "''json''" "''out.json''"]
    by (simp add: v2 v3)
qed

section \<open>Properties of the response validator\<close>

lemma allowed_category_values: "allowed_category v \<longleftrightarrow> v \<in> set Category_values"
  by (simp add: allowed_category_def Category_values_def)

text \<open>Each check of the source against the rule it implements.\<close>

lemma categories_check:
  "(\<not> truthy_opt cats \<or> \<not> isArray_opt cats \<or> list_ex (\<lambda>v. \<not> is_string v) (elements cats)) \<longleftrightarrow>
   \<not> (case cats of Some (JArr xs) \<Rightarrow> list_all is_string xs | _ \<Rightarrow> False)"
  by (cases cats rule: elements.cases) (auto simp: list_ex_iff list_all_iff)

lemma category_values_check:
  "list_ex (\<lambda>category. category \<notin> set Category_values) xs \<longleftrightarrow> \<not> list_all allowed_category xs"
  by (auto simp: list_ex_iff list_all_iff allowed_category_values)

lemma extracted_fields_check:
  "(\<not> truthy ef \<or>
    \<not> list_all (\<lambda>field. hasOwn ef field) [''payer'', ''cpt_codes'', ''suggested_action'']) \<longleftrightarrow>
   \<not> (case ef of
        JObj kvs \<Rightarrow>
          list_all (\<lambda>k. k \<in> set (map fst kvs)) [''payer'', ''cpt_codes'', ''suggested_action'']
      | _ \<Rightarrow> False)"
  by (cases ef) auto

lemma cpt_codes_check:
  "(\<not> isArray_opt codes \<or> list_ex (\<lambda>code. \<not> is_string code) (elements codes)) \<longleftrightarrow>
   \<not> (case codes of Some (JArr xs) \<Rightarrow> list_all is_string xs | _ \<Rightarrow> False)"
  by (cases codes rule: elements.cases) (auto simp: list_ex_iff list_all_iff)

lemma parseLLMResponse_object:
  "parse response = Inr (JObj kvs) \<Longrightarrow>
   parseLLMResponse parse response =
     (if \<not> rule_categories (JObj kvs)
      then Inl (Error ''Incorrect categories format in LLM Response'')
      else if \<not> rule_category_values (JObj kvs)
      then Inl (Error ''Invalid category values in LLM Response'')
      else if \<not> rule_extracted_fields (JObj kvs)
      then Inl (Error ''Incorrect extracted_fields format in LLM Response'')
      else if \<not> rule_cpt_codes (JObj kvs)
      then Inl (Error ''Incorrect cpt_codes in LLM Response'')
      else Inr (JObj kvs))"
  unfolding parseLLMResponse_def rule_categories_def rule_category_values_def
    rule_extracted_fields_def rule_cpt_codes_def Let_def
    categories_check category_values_check extracted_fields_check cpt_codes_check
  by (simp split: option.splits json.splits)

lemma parseLLMResponse_not_object:
  "parse response = Inr j \<Longrightarrow> \<not> is_object j \<Longrightarrow> j \<noteq> JNull \<Longrightarrow>
   parseLLMResponse parse response = Inl (Error ''Incorrect categories format in LLM Response'')"
  by (cases j) (simp_all add: parseLLMResponse_def)

lemma parseLLMResponse_null:
  "parse response = Inr JNull \<Longrightarrow>
   parseLLMResponse parse response =
     Inl (TypeError ''Cannot read properties of null (reading 'categories')'')"
  by (simp add: parseLLMResponse_def)

lemma parseLLMResponse_unparseable:
  "parse response = Inl e \<Longrightarrow> parseLLMResponse parse response = Inl e"
  by (simp add: parseLLMResponse_def)

lemma parseLLMResponse_valid:
  assumes "parse response = Inr j" and "first_violation (Inr j) = None"
  shows "parseLLMResponse parse response = Inr j"
proof -
  from assms(2) obtain kvs where j: "j = JObj kvs"
    by (cases j) (simp_all add: first_violation_def rule_top_level_def)
  from assms show ?thesis
    unfolding j
    by (simp add: parseLLMResponse_object first_violation_def rule_top_level_def
          split: if_splits)
qed

text \<open>
  Every parsed value other than \<^verbatim>\<open>null\<close> either breaks no rule and is returned,
  or breaks one and gets one of the validator's four errors; this covers the
  values that are not objects.
\<close>

lemma parseLLMResponse_named:
  assumes "parse response = Inr j" and "j \<noteq> JNull"
  shows "(first_violation (Inr j) = None \<and> parseLLMResponse parse response = Inr j) \<or>
         (first_violation (Inr j) \<noteq> None \<and>
          (\<exists>e \<in> set validation_errors. parseLLMResponse parse response = Inl e))"
proof (cases "is_object j")
  case True
  then obtain kvs where j: "j = JObj kvs" by (cases j) simp_all
  show ?thesis
    using assms(1) unfolding j
    by (simp add: parseLLMResponse_object first_violation_def rule_top_level_def
          validation_errors_def)
next
  case False
  with assms show ?thesis
    by (simp add: parseLLMResponse_not_object first_violation_def rule_top_level_def
          validation_errors_def)
qed

lemma test_parse_coding_error [simp]: "test_parse coding_error_text = Inr coding_error_reply"
  by (simp add: test_parse_def parse_table_def coding_error_text_def)

lemma test_parse_billing [simp]: "test_parse billing_text = Inr billing_reply"
  by (simp add: test_parse_def parse_table_def coding_error_text_def billing_text_def)

lemma test_parse_no_category [simp]: "test_parse no_category_text = Inr no_category_reply"
  by (simp add: test_parse_def parse_table_def coding_error_text_def billing_text_def
        no_category_text_def)

lemma test_parse_null [simp]: "test_parse ''null'' = Inr JNull"
  by (simp add: test_parse_def parse_table_def coding_error_text_def billing_text_def
        no_category_text_def)

lemma test_parse_array [simp]: "test_parse ''[]'' = Inr (JArr [])"
  by (simp add: test_parse_def parse_table_def coding_error_text_def billing_text_def
        no_category_text_def)

lemma first_violation_unparseable [simp]: "first_violation (Inl e) = Some ParseableJSON"
  by (simp add: first_violation_def)

lemma first_violation_coding_error [simp]: "first_violation (Inr coding_error_reply) = None"
  by (simp add: first_violation_def coding_error_reply_def rule_top_level_def
        rule_categories_def rule_category_values_def rule_extracted_fields_def
        rule_cpt_codes_def allowed_category_def)

lemma first_violation_billing [simp]:
  "first_violation (Inr billing_reply) = Some CategoriesAllowed"
  by (simp add: first_violation_def billing_reply_def rule_top_level_def
        rule_categories_def rule_category_values_def allowed_category_def)

lemma first_violation_no_category [simp]: "first_violation (Inr no_category_reply) = None"
  by (simp add: first_violation_def no_category_reply_def rule_top_level_def
        rule_categories_def rule_category_values_def rule_extracted_fields_def
        rule_cpt_codes_def allowed_category_def)

text \<open>
  C3. A reply that parses to \<^verbatim>\<open>null\<close> breaks the rule that the top-level value
  is an object. \<^verbatim>\<open>parseLLMResponse\<close> reads \<^verbatim>\<open>responseJSON.categories\<close> with no
  guard, so what it raises is the runtime's \<^verbatim>\<open>TypeError\<close>, which is none of the
  errors by which the validator names a rule.
\<close>

theorem parseLLMResponse_null_TypeError:
  assumes "parse response = Inr JNull"
  shows "first_violation (parse response) = Some TopLevelObject \<and>
         parseLLMResponse parse response =
           Inl (TypeError ''Cannot read properties of null (reading 'categories')'') \<and>
         (\<forall>e \<in> set validation_errors. parseLLMResponse parse response \<noteq> Inl e)"
  using assms
  by (simp add: first_violation_def rule_top_level_def parseLLMResponse_def validation_errors_def
        TypeError_def Error_def)

text \<open>
  The reply \<^verbatim>\<open>null\<close>, and beside it the reply \<^verbatim>\<open>[]\<close>, which breaks the same
  rule and gets the validator's error on the format of \<^verbatim>\<open>categories\<close>.
\<close>

theorem parseLLMResponse_null_TypeError_witness:
  "test_parse ''null'' = Inr JNull \<and>
   first_violation (test_parse ''null'') = Some TopLevelObject \<and>
   parseLLMResponse test_parse ''null'' =
     Inl (TypeError ''Cannot read properties of null (reading 'categories')'') \<and>
   parseLLMResponse test_parse ''null'' \<noteq>
     Inl (Error ''Incorrect categories format in LLM Response'') \<and>
   first_violation (test_parse ''[]'') = Some TopLevelObject \<and>
   parseLLMResponse test_parse ''[]'' =
     Inl (Error ''Incorrect categories format in LLM Response'')"
proof -
  note null = parseLLMResponse_null_TypeError [of test_parse "''null''", OF test_parse_null]
  have named: "Error ''Incorrect categories format in LLM Response'' \<in> set validation_errors"
    by (simp add: validation_errors_def)
  from null named have differs: "parseLLMResponse test_parse ''null'' \<noteq>
     Inl (Error ''Incorrect categories format in LLM Response'')"
    by blast
  have array: "first_violation (test_parse ''[]'') = Some TopLevelObject \<and>
     parseLLMResponse test_parse ''[]'' =
       Inl (Error ''Incorrect categories format in LLM Response'')"
    by (simp add: first_violation_def rule_top_level_def parseLLMResponse_def)
  from null differs array test_parse_null show ?thesis
    by blast
qed

section \<open>Properties of the classification service\<close>

lemma classifyDenial_called:
  "callAPI post config (classify_messages claim) w = (called, w') \<Longrightarrow>
   classifyDenial post parse config claim w =
     (case called of
        Inl e \<Rightarrow> (Inl (classification_error claim e), w')
      | Inr llmResponse \<Rightarrow>
          (case parseLLMResponse parse llmResponse of
             Inl e \<Rightarrow> (Inl (classification_error claim e), w')
           | Inr parsed \<Rightarrow>
               (Inr ((spread claim)
                       \<lparr>categories := js_prop parsed ''categories'',
                        extracted_fields := js_prop parsed ''extracted_fields''\<rparr>),
                w')))"
  by (simp add: classifyDenial_def)

lemma message_classification_error:
  "message (classification_error claim e) =
     ''Failed to classify claim denial (id: '' @ id claim @ ''): '' @ message_or_error e"
  by (simp add: classification_error_def Error_def)

lemma rule_categories_Some:
  "rule_categories j \<Longrightarrow> \<exists>xs. js_prop j ''categories'' = Some (JArr xs) \<and> list_all is_string xs"
  by (auto simp: rule_categories_def split: option.splits json.splits)

lemma rule_extracted_fields_Some:
  "rule_extracted_fields j \<Longrightarrow> \<exists>kvs. js_prop j ''extracted_fields'' = Some (JObj kvs)"
  by (auto simp: rule_extracted_fields_def split: option.splits json.splits)

lemma first_violation_None:
  "first_violation (Inr j) = None \<longleftrightarrow>
     rule_top_level j \<and> rule_categories j \<and> rule_category_values j \<and>
     rule_extracted_fields j \<and> rule_cpt_codes j"
  by (simp add: first_violation_def)

text \<open>The scripted transport, one request at a time.\<close>

lemma axios_post_scripted:
  "axios_post (scripted outcomes) req w =
     (if net w < length outcomes then outcomes ! net w
      else Rejected (JsError ''AxiosError'' ''Network Error''),
      emit (AxiosPost req) (w\<lparr>net := net w + 1\<rparr>))"
  by (simp add: axios_post_def scripted_def)

lemmas callAPI_loop_scripted =
  callAPI_loop_first [OF axios_post_scripted]
  callAPI_loop_second [OF axios_post_scripted]
  callAPI_loop_third [OF axios_post_scripted]

lemma callAPI_scripted_first:
  assumes "net w < length outcomes" and "outcomes ! net w = completion s"
  shows "callAPI (scripted outcomes) config msgs w =
           (Inr s, emit (AxiosPost (build_request config msgs)) (w\<lparr>net := net w + 1\<rparr>))"
  unfolding callAPI_def using assms
  by (subst callAPI_loop_scripted(1)) simp

lemma callAPI_scripted_second:
  assumes "net w + 1 < length outcomes" and "outcomes ! net w = timed_out"
      and "outcomes ! (net w + 1) = completion s"
  shows "fst (callAPI (scripted outcomes) config msgs w) = Inr s"
  unfolding callAPI_def using assms
  by (subst callAPI_loop_scripted(1), simp, subst callAPI_loop_scripted(2), simp)

lemma callAPI_scripted_timeouts:
  assumes "net w + 2 < length outcomes" and "outcomes ! net w = timed_out"
      and "outcomes ! (net w + 1) = timed_out" and "outcomes ! (net w + 2) = timed_out"
  shows "callAPI (scripted outcomes) config msgs w =
           (Inl (attempts_failed (Some (JsError ''AxiosError'' ''timeout of 30000ms exceeded''))),
            emit (AxiosPost (build_request config msgs))
              (emit (Backoff 1000)
                (emit (AxiosPost (build_request config msgs))
                  (emit (Backoff 500)
                    (emit (AxiosPost (build_request config msgs))
                      (w\<lparr>net := net w + 1\<rparr>))
                   \<lparr>net := net w + 2\<rparr>))
               \<lparr>net := net w + 3\<rparr>))"
  unfolding callAPI_def using assms
  by (subst callAPI_loop_scripted(1), simp, subst callAPI_loop_scripted(2), simp,
      subst callAPI_loop_scripted(3), simp add: numeral_2_eq_2 numeral_3_eq_3)

text \<open>
  What \<^verbatim>\<open>classifyDenial\<close> returns for a reply that parses to a value \<open>j\<close> breaking
  no rule: the validator returns \<open>j\<close> itself, and the record is the spread of the
  claim with \<^verbatim>\<open>categories\<close> and \<^verbatim>\<open>extracted_fields\<close> as they are in \<open>j\<close> (both
  present). Its \<^verbatim>\<open>error\<close> is whatever the claim holds under that key.
\<close>

lemma classifyDenial_valid:
  assumes "callAPI post config (classify_messages claim) w = (Inr reply, w')"
      and "parse reply = Inr j"
      and "first_violation (Inr j) = None"
  shows "parseLLMResponse parse reply = Inr j \<and>
         classifyDenial post parse config claim w =
           (Inr ((spread claim)
                   \<lparr>categories := js_prop j ''categories'',
                    extracted_fields := js_prop j ''extracted_fields''\<rparr>),
            w') \<and>
         (\<exists>xs kvs. js_prop j ''categories'' = Some (JArr xs) \<and>
                   js_prop j ''extracted_fields'' = Some (JObj kvs))"
proof -
  have valid: "parseLLMResponse parse reply = Inr j"
    using assms(2,3) by (rule parseLLMResponse_valid)
  have out: "classifyDenial post parse config claim w =
           (Inr ((spread claim)
                   \<lparr>categories := js_prop j ''categories'',
                    extracted_fields := js_prop j ''extracted_fields''\<rparr>),
            w')"
    by (simp add: classifyDenial_called [OF assms(1)] valid)
  have present: "\<exists>xs kvs. js_prop j ''categories'' = Some (JArr xs) \<and>
                   js_prop j ''extracted_fields'' = Some (JObj kvs)"
    using assms(3) rule_categories_Some [of j] rule_extracted_fields_Some [of j]
    by (auto simp: first_violation_None)
  from valid out present show ?thesis by blast
qed

lemma callAPI_one_reply:
  "callAPI one_reply test_config msgs (emit ev fresh_world) =
     (Inr coding_error_text,
      emit (AxiosPost (build_request test_config msgs)) (emit ev fresh_world\<lparr>net := 1\<rparr>))"
  "callAPI one_reply test_config msgs fresh_world =
     (Inr coding_error_text,
      emit (AxiosPost (build_request test_config msgs)) (fresh_world\<lparr>net := 1\<rparr>))"
  unfolding one_reply_def
  by (subst callAPI_scripted_first [where s = coding_error_text]; simp add: fresh_world_def)+

text \<open>
  C5. A claim that carries a key \<^verbatim>\<open>error\<close> of its own is answered with a reply
  that parses to a value \<open>j\<close> breaking no rule. The record \<^verbatim>\<open>classifyDenial\<close>
  returns has the \<^verbatim>\<open>categories\<close> and \<^verbatim>\<open>extracted_fields\<close> of \<open>j\<close>, and its
  \<^verbatim>\<open>error\<close> is set, to the value the claim carried: the spread copied the key and
  nothing unsets it.
\<close>

theorem classifyDenial_stale_error:
  assumes "callAPI post config (classify_messages claim) w = (Inr reply, w')"
      and "parse reply = Inr j"
      and "first_violation (Inr j) = None"
      and "map_of (others claim) ''error'' = Some v"
  shows "classifyDenial post parse config claim w =
           (Inr ((spread claim)
                   \<lparr>categories := js_prop j ''categories'',
                    extracted_fields := js_prop j ''extracted_fields''\<rparr>),
            w') \<and>
         error ((spread claim)
                  \<lparr>categories := js_prop j ''categories'',
                   extracted_fields := js_prop j ''extracted_fields''\<rparr>) = Some v"
  using classifyDenial_valid [OF assms(1), of parse j, OF assms(2,3)] assms(4)
  by (simp add: spread_def)

text \<open>
  The claim \<^verbatim>\<open>{"id":"C1","denial_note":"CPT code invalid","error":"stale"}\<close>,
  answered with the reply of the scenario.
\<close>

theorem classifyDenial_stale_error_witness:
  "first_violation (test_parse coding_error_text) = None \<and>
   classifyDenial one_reply test_parse test_config stale_claim fresh_world =
     (Inr \<lparr>id = ''C1'', denial_note = ''CPT code invalid'', others = [],
           categories = Some (JArr [JStr ''Coding Error'']),
           extracted_fields =
             Some (JObj [(''payer'', JNull), (''cpt_codes'', JArr []),
                         (''suggested_action'', JStr ''Resubmit'')]),
           error = Some (JStr ''stale'')\<rparr>,
      \<lparr>net = 1, trace = [AxiosPost (build_request test_config (classify_messages stale_claim))]\<rparr>)"
proof -
  have rules: "first_violation (test_parse coding_error_text) = None"
    by simp
  have carried: "map_of (others stale_claim) ''error'' = Some (JStr ''stale'')"
    by (simp add: stale_claim_def)
  note returned = classifyDenial_stale_error
    [where parse = test_parse and j = coding_error_reply and claim = stale_claim,
     OF callAPI_one_reply(2) test_parse_coding_error first_violation_coding_error carried,
     THEN conjunct1]
  have stale: "(spread stale_claim)
      \<lparr>categories := js_prop coding_error_reply ''categories'',
       extracted_fields := js_prop coding_error_reply ''extracted_fields''\<rparr> =
     \<lparr>id = ''C1'', denial_note = ''CPT code invalid'', others = [],
      categories = Some (JArr [JStr ''Coding Error'']),
      extracted_fields =
        Some (JObj [(''payer'', JNull), (''cpt_codes'', JArr []),
                    (''suggested_action'', JStr ''Resubmit'')]),
      error = Some (JStr ''stale'')\<rparr>"
    by (simp add: spread_def stale_claim_def coding_error_reply_def)
  have world: "emit (AxiosPost (build_request test_config (classify_messages stale_claim)))
                 (fresh_world\<lparr>net := 1\<rparr>) =
               \<lparr>net = 1,
                trace = [AxiosPost (build_request test_config (classify_messages stale_claim))]\<rparr>"
    by (simp add: emit_def fresh_world_def)
  from rules returned show ?thesis
    unfolding stale world by blast
qed

text \<open>
  C6. A failure of \<^verbatim>\<open>callAPI\<close> and a failure of \<^verbatim>\<open>parseLLMResponse\<close> both make
  \<^verbatim>\<open>classifyDenial\<close> raise one error, and it raises no other: its message is
  \<^verbatim>\<open>Failed to classify claim denial (id: \<close>, the claim's id, \<^verbatim>\<open>): \<close> and the message
  of the failure, so it contains the id and ends with the cause's message.
  Building the prompt cannot fail.
\<close>

theorem classifyDenial_failure:
  "(callAPI post config (classify_messages claim) w = (Inl e, w') \<longrightarrow>
      classifyDenial post parse config claim w = (Inl (classification_error claim e), w')) \<and>
   (callAPI post config (classify_messages claim) w = (Inr reply, w') \<and>
    parseLLMResponse parse reply = Inl e \<longrightarrow>
      classifyDenial post parse config claim w = (Inl (classification_error claim e), w')) \<and>
   (fst (classifyDenial post parse config claim w) = Inl err \<longrightarrow>
      (\<exists>cause. err = classification_error claim cause \<and>
         (fst (callAPI post config (classify_messages claim) w) = Inl cause \<or>
          (\<exists>text. fst (callAPI post config (classify_messages claim) w) = Inr text \<and>
                  parseLLMResponse parse text = Inl cause)))) \<and>
   message (classification_error claim e) =
     ''Failed to classify claim denial (id: '' @ id claim @ ''): '' @ message_or_error e \<and>
   sublist (id claim) (message (classification_error claim e)) \<and>
   suffix (message e) (message (classification_error claim e))"
proof -
  obtain called w1 where c: "callAPI post config (classify_messages claim) w = (called, w1)"
    by (cases "callAPI post config (classify_messages claim) w")
  have transport: "callAPI post config (classify_messages claim) w = (Inl e, w') \<longrightarrow>
      classifyDenial post parse config claim w = (Inl (classification_error claim e), w')"
    by (auto simp: classifyDenial_called)
  have validation: "callAPI post config (classify_messages claim) w = (Inr reply, w') \<and>
    parseLLMResponse parse reply = Inl e \<longrightarrow>
      classifyDenial post parse config claim w = (Inl (classification_error claim e), w')"
    by (auto simp: classifyDenial_called)
  have only: "fst (classifyDenial post parse config claim w) = Inl err \<longrightarrow>
      (\<exists>cause. err = classification_error claim cause \<and>
         (fst (callAPI post config (classify_messages claim) w) = Inl cause \<or>
          (\<exists>text. fst (callAPI post config (classify_messages claim) w) = Inr text \<and>
                  parseLLMResponse parse text = Inl cause)))"
    by (auto simp: classifyDenial_called [OF c] c split: sum.splits)
  have inside: "sublist (id claim) (message (classification_error claim e))"
    unfolding message_classification_error sublist_def by blast
  have cause: "suffix (message e) (message (classification_error claim e))"
    unfolding message_classification_error
    using suffix_message_or_error
      [of e "''Failed to classify claim denial (id: '' @ id claim @ ''): ''"]
    by (simp only: append_assoc)
  from transport validation only inside cause message_classification_error [of claim e]
  show ?thesis by blast
qed

theorem classifyDenial_failure_witness:
  "fst (classifyDenial (scripted [timed_out, timed_out, timed_out]) test_parse test_config
          claim_C1 \<lparr>net = 0, trace = []\<rparr>) =
     Inl (Error ''Failed to classify claim denial (id: C1): OpenRouter API call failed after 3 attempts: timeout of 30000ms exceeded'') \<and>
   fst (classifyDenial (scripted [completion billing_text]) test_parse test_config
          claim_C1 \<lparr>net = 0, trace = []\<rparr>) =
     Inl (Error ''Failed to classify claim denial (id: C1): Invalid category values in LLM Response'')"
proof -
  let ?w = "\<lparr>net = 0 :: nat, trace = []\<rparr>"
  let ?timeout = "JsError ''AxiosError'' ''timeout of 30000ms exceeded''"
  obtain w1 where t: "callAPI (scripted [timed_out, timed_out, timed_out]) test_config
                        (classify_messages claim_C1) ?w =
                      (Inl (attempts_failed (Some ?timeout)), w1)"
    by (simp add: callAPI_scripted_timeouts)
  have v: "callAPI (scripted [completion billing_text]) test_config
             (classify_messages claim_C1) ?w =
           (Inr billing_text,
            emit (AxiosPost (build_request test_config (classify_messages claim_C1)))
              (?w\<lparr>net := net ?w + 1\<rparr>))"
    by (simp add: callAPI_scripted_first)
  have bad: "parseLLMResponse test_parse billing_text =
               Inl (Error ''Invalid category values in LLM Response'')"
    by (simp add: parseLLMResponse_def billing_reply_def Category_values_def)
  have m1: "classification_error claim_C1 (attempts_failed (Some ?timeout)) =
     Error ''Failed to classify claim denial (id: C1): OpenRouter API call failed after 3 attempts: timeout of 30000ms exceeded''"
    by (simp add: classification_error_def attempts_failed_def message_or_error_def
          Error_def claim_C1_def)
  have m2: "classification_error claim_C1 (Error ''Invalid category values in LLM Response'') =
     Error ''Failed to classify claim denial (id: C1): Invalid category values in LLM Response''"
    by (simp add: classification_error_def message_or_error_def Error_def claim_C1_def)
  let ?w2 = "emit (AxiosPost (build_request test_config (classify_messages claim_C1)))
               (?w\<lparr>net := net ?w + 1\<rparr>)"
  have "callAPI (scripted [timed_out, timed_out, timed_out]) test_config
          (classify_messages claim_C1) ?w = (Inl (attempts_failed (Some ?timeout)), w1) \<longrightarrow>
        classifyDenial (scripted [timed_out, timed_out, timed_out]) test_parse test_config
          claim_C1 ?w =
          (Inl (classification_error claim_C1 (attempts_failed (Some ?timeout))), w1)"
    using classifyDenial_failure
            [where post = "scripted [timed_out, timed_out, timed_out]" and config = test_config
               and claim = claim_C1 and w = ?w and parse = test_parse
               and e = "attempts_failed (Some ?timeout)" and w' = w1]
    by (rule conjunct1)
  with t have r1: "fst (classifyDenial (scripted [timed_out, timed_out, timed_out]) test_parse
                          test_config claim_C1 ?w) =
                   Inl (classification_error claim_C1 (attempts_failed (Some ?timeout)))"
    by simp
  have "callAPI (scripted [completion billing_text]) test_config
          (classify_messages claim_C1) ?w = (Inr billing_text, ?w2) \<and>
        parseLLMResponse test_parse billing_text =
          Inl (Error ''Invalid category values in LLM Response'') \<longrightarrow>
        classifyDenial (scripted [completion billing_text]) test_parse test_config claim_C1 ?w =
          (Inl (classification_error claim_C1
                  (Error ''Invalid category values in LLM Response'')), ?w2)"
    using classifyDenial_failure
            [where post = "scripted [completion billing_text]" and config = test_config
               and claim = claim_C1 and w = ?w and parse = test_parse
               and e = "Error ''Invalid category values in LLM Response''"
               and reply = billing_text and w' = ?w2, THEN conjunct2, THEN conjunct1] .
  with v bad have r2: "fst (classifyDenial (scripted [completion billing_text]) test_parse
                              test_config claim_C1 ?w) =
                       Inl (classification_error claim_C1
                              (Error ''Invalid category values in LLM Response''))"
    by simp
  show ?thesis
    unfolding r1 r2 m1 m2 by simp
qed

text \<open>
  C8. Two runs of \<^verbatim>\<open>classifyDenial\<close> on the same claim in which \<^verbatim>\<open>callAPI\<close> returns
  the same content give the same result, whatever the two worlds they start from,
  the transports that answer and the configurations: the result is a function of
  the claim and of the content alone.
\<close>

theorem classifyDenial_deterministic:
  assumes "fst (callAPI post1 config1 (classify_messages claim) w1) = Inr reply"
      and "fst (callAPI post2 config2 (classify_messages claim) w2) = Inr reply"
  shows "fst (classifyDenial post1 parse config1 claim w1) =
         fst (classifyDenial post2 parse config2 claim w2)"
proof -
  obtain v1 where c1: "callAPI post1 config1 (classify_messages claim) w1 = (Inr reply, v1)"
    using assms(1) by (cases "callAPI post1 config1 (classify_messages claim) w1") simp
  obtain v2 where c2: "callAPI post2 config2 (classify_messages claim) w2 = (Inr reply, v2)"
    using assms(2) by (cases "callAPI post2 config2 (classify_messages claim) w2") simp
  show ?thesis
    by (simp add: classifyDenial_called [OF c1] classifyDenial_called [OF c2] split: sum.splits)
qed

theorem classifyDenial_deterministic_witness:
  "fst (callAPI (scripted [completion coding_error_text, timed_out, completion coding_error_text])
          test_config (classify_messages claim_C1) \<lparr>net = 0, trace = []\<rparr>) =
     Inr coding_error_text \<and>
   fst (callAPI (scripted [completion coding_error_text, timed_out, completion coding_error_text])
          test_config (classify_messages claim_C1) \<lparr>net = 1, trace = []\<rparr>) =
     Inr coding_error_text \<and>
   fst (classifyDenial
          (scripted [completion coding_error_text, timed_out, completion coding_error_text])
          test_parse test_config claim_C1 \<lparr>net = 0, trace = []\<rparr>) =
   fst (classifyDenial
          (scripted [completion coding_error_text, timed_out, completion coding_error_text])
          test_parse test_config claim_C1 \<lparr>net = 1, trace = []\<rparr>)"
proof -
  let ?s = "scripted [completion coding_error_text, timed_out, completion coding_error_text]"
  have r1: "fst (callAPI ?s test_config (classify_messages claim_C1) \<lparr>net = 0, trace = []\<rparr>) =
              Inr coding_error_text"
    by (simp add: callAPI_scripted_first)
  have r2: "fst (callAPI ?s test_config (classify_messages claim_C1) \<lparr>net = 1, trace = []\<rparr>) =
              Inr coding_error_text"
    by (rule callAPI_scripted_second) simp_all
  from r1 r2 classifyDenial_deterministic [OF r1 r2, of test_parse]
  show ?thesis by blast
qed

text \<open>
  C10. A reply whose \<^verbatim>\<open>categories\<close> is the empty array and whose
  \<^verbatim>\<open>extracted_fields\<close> conforms passes the validator, and \<^verbatim>\<open>classifyDenial\<close>
  returns the spread of the claim with the empty \<^verbatim>\<open>categories\<close>; for a claim
  with no key besides \<^verbatim>\<open>id\<close> and \<^verbatim>\<open>denial_note\<close> that record has no \<^verbatim>\<open>error\<close>.
  So an empty \<^verbatim>\<open>categories\<close> does not tell a failed claim from a classified one.
\<close>

theorem classifyDenial_empty_categories:
  assumes "callAPI post config (classify_messages claim) w = (Inr reply, w')"
      and "parse reply = Inr j"
      and "js_prop j ''categories'' = Some (JArr [])"
      and "rule_extracted_fields j"
      and "rule_cpt_codes j"
  shows "parseLLMResponse parse reply = Inr j \<and>
         classifyDenial post parse config claim w =
           (Inr ((spread claim)
                   \<lparr>categories := Some (JArr []),
                    extracted_fields := js_prop j ''extracted_fields''\<rparr>),
            w') \<and>
         (others claim = [] \<longrightarrow>
            classifyDenial post parse config claim w =
              (Inr \<lparr>id = id claim, denial_note = denial_note claim, others = [],
                    categories = Some (JArr []),
                    extracted_fields = js_prop j ''extracted_fields'',
                    error = None\<rparr>,
               w'))"
proof -
  from assms(3) obtain kvs where j: "j = JObj kvs" by (cases j) simp_all
  have "first_violation (Inr j) = None"
    using assms(3,4,5)
    by (simp add: first_violation_None j rule_top_level_def rule_categories_def
          rule_category_values_def)
  with assms(2) have valid: "parseLLMResponse parse reply = Inr j"
    by (rule parseLLMResponse_valid)
  then show ?thesis
    by (simp add: classifyDenial_called [OF assms(1)] assms(3) spread_def)
qed

theorem classifyDenial_empty_categories_witness:
  "classifyDenial (scripted [completion no_category_text]) test_parse test_config claim_C2
       \<lparr>net = 0, trace = []\<rparr> =
     (Inr \<lparr>id = ''C2'', denial_note = ''Patient was not eligible'', others = [],
           categories = Some (JArr []),
           extracted_fields =
             Some (JObj [(''payer'', JStr ''Aetna''), (''cpt_codes'', JArr [JStr ''99213'']),
                         (''suggested_action'', JStr ''Call the payer'')]),
           error = None\<rparr>,
      \<lparr>net = 1, trace = [AxiosPost (build_request test_config (classify_messages claim_C2))]\<rparr>)"
proof -
  have called: "callAPI (scripted [completion no_category_text]) test_config
                  (classify_messages claim_C2) \<lparr>net = 0, trace = []\<rparr> =
                (Inr no_category_text,
                 \<lparr>net = 1,
                  trace = [AxiosPost (build_request test_config (classify_messages claim_C2))]\<rparr>)"
    by (simp add: callAPI_scripted_first emit_def)
  have c: "js_prop no_category_reply ''categories'' = Some (JArr [])"
    by (simp add: no_category_reply_def)
  have e: "rule_extracted_fields no_category_reply"
    by (simp add: no_category_reply_def rule_extracted_fields_def)
  have p: "rule_cpt_codes no_category_reply"
    by (simp add: no_category_reply_def rule_cpt_codes_def)
  note empty = classifyDenial_empty_categories
    [where parse = test_parse and j = no_category_reply,
     OF called test_parse_no_category c e p]
  then show ?thesis
    by (simp add: claim_C2_def no_category_reply_def spread_def)
qed

section \<open>Properties of the batch runner\<close>

text \<open>What the transport client and the classification service add to the trace.\<close>

lemma callAPI_loop_trace:
  "\<exists>evs. trace (snd (callAPI_loop post req attempt l w)) = trace w @ evs \<and>
         list_all is_transport evs"
proof (induction post req attempt l w rule: callAPI_loop.induct)
  case (1 post req attempt lastError w)
  show ?case
  proof (cases "attempt \<le> 3")
    case False
    then show ?thesis by (subst callAPI_loop.simps) simp
  next
    case True
    obtain outcome w1 where p: "axios_post post req w = (outcome, w1)"
      by (cases "axios_post post req w")
    have t1: "trace w1 = trace w @ [AxiosPost req]"
      using p by (rule trace_axios_post)
    show ?thesis
    proof (cases "attempt_result outcome")
      case (Inr s)
      then have "callAPI_loop post req attempt lastError w = (Inr s, w1)"
        using True p by (subst callAPI_loop.simps) simp
      then show ?thesis by (simp add: t1)
    next
      case (Inl e)
      let ?w2 = "if attempt < 3 then emit (Backoff (500 * 2 ^ (attempt - 1))) w1 else w1"
      have step: "callAPI_loop post req attempt lastError w =
                    callAPI_loop post req (attempt + 1) (Some e) ?w2"
        using True p Inl by (subst callAPI_loop.simps) simp
      from "1.IH" [OF True p [symmetric] refl Inl]
      obtain evs where evs: "trace (snd (callAPI_loop post req (attempt + 1) (Some e) ?w2)) =
                          trace ?w2 @ evs" "list_all is_transport evs"
        by blast
      have "\<exists>pre. trace ?w2 = trace w @ pre \<and> list_all is_transport pre"
        by (simp add: t1)
      then obtain pre where pre: "trace ?w2 = trace w @ pre" "list_all is_transport pre"
        by blast
      have "trace (snd (callAPI_loop post req attempt lastError w)) = trace w @ (pre @ evs)"
        by (simp only: step evs(1) pre(1) append_assoc)
      moreover have "list_all is_transport (pre @ evs)"
        using pre(2) evs(2) by simp
      ultimately show ?thesis by blast
    qed
  qed
qed

lemma classifyDenial_world:
  "snd (classifyDenial post parse config claim w) =
   snd (callAPI post config (classify_messages claim) w)"
  by (simp add: classifyDenial_def split: prod.splits sum.splits)

lemma classifyDenial_trace:
  "\<exists>evs. trace (snd (classifyDenial post parse config claim w)) = trace w @ evs \<and>
         list_all is_transport evs"
  unfolding classifyDenial_world callAPI_def by (rule callAPI_loop_trace)

lemma classified_append [simp]: "classified (xs @ ys) = classified xs @ classified ys"
  by (induction xs rule: classified.induct) simp_all

lemma pacings_append [simp]: "pacings (xs @ ys) = pacings xs @ pacings ys"
  by (induction xs rule: pacings.induct) simp_all

lemma classified_transport: "list_all is_transport evs \<Longrightarrow> classified evs = []"
  by (induction evs rule: classified.induct) simp_all

lemma pacings_transport: "list_all is_transport evs \<Longrightarrow> pacings evs = []"
  by (induction evs rule: pacings.induct) simp_all

lemma runner_steps_transport: "list_all is_transport evs \<Longrightarrow> runner_steps evs = []"
  unfolding runner_steps_def
  by (induction evs) (auto elim: is_transport.elims)

lemma runner_steps_append [simp]: "runner_steps (xs @ ys) = runner_steps xs @ runner_steps ys"
  by (simp add: runner_steps_def)

text \<open>What a successful classification returns.\<close>

lemma classifyDenial_Inr:
  assumes "fst (classifyDenial post parse config claim w) = Inr output"
  shows "id output = id claim \<and> denial_note output = denial_note claim \<and>
         error output = map_of (others claim) ''error''"
  using assms by (auto simp: classifyDenial_def spread_def split: prod.splits sum.splits)

text \<open>One pass through the loop, and the loop over a concatenation.\<close>

lemma processClaims_loop_step:
  "processClaims_loop post parse llmClient total_n (claim # rest) (results, processed, w) =
     processClaims_loop post parse llmClient total_n rest
       (results @ [case fst (classifyDenial post parse llmClient claim (emit (Classify claim) w)) of
                     Inr output \<Rightarrow> output
                   | Inl e \<Rightarrow> failed_output claim e],
        processed + 1,
        if processed + 1 < total_n
        then emit (Pacing 500) (emit (Progress (processed + 1) total_n)
               (snd (classifyDenial post parse llmClient claim (emit (Classify claim) w))))
        else emit (Progress (processed + 1) total_n)
               (snd (classifyDenial post parse llmClient claim (emit (Classify claim) w))))"
  by (simp add: Let_def split: prod.splits)

lemma processClaims_loop_append:
  "processClaims_loop post parse llmClient total_n (xs @ ys) st =
   processClaims_loop post parse llmClient total_n ys
     (processClaims_loop post parse llmClient total_n xs st)"
proof (induction xs arbitrary: st)
  case Nil
  show ?case by simp
next
  case (Cons x xs)
  obtain results processed w where st: "st = (results, processed, w)"
    by (cases st)
  show ?case
    unfolding st append_Cons processClaims_loop_step by (rule Cons.IH)
qed

lemma processClaims_loop_results:
  "\<exists>more. fst (processClaims_loop post parse llmClient total_n xs (results, processed, w)) =
            results @ more \<and> length more = length xs"
proof (induction xs arbitrary: results processed w)
  case Nil
  show ?case by simp
next
  case (Cons x xs)
  show ?case
    unfolding processClaims_loop_step
    using Cons.IH
      [of "results @ [case fst (classifyDenial post parse llmClient x (emit (Classify x) w)) of
                        Inr output \<Rightarrow> output
                      | Inl e \<Rightarrow> failed_output x e]"]
    by (metis append_Cons append_Nil append_assoc length_Cons)
qed

lemma processClaims_loop_processed:
  "fst (snd (processClaims_loop post parse llmClient total_n xs (results, processed, w))) =
     processed + length xs"
proof (induction xs arbitrary: results processed w)
  case Nil
  show ?case by simp
next
  case (Cons x xs)
  show ?case
    unfolding processClaims_loop_step by (simp add: Cons.IH)
qed

lemma processClaims_results:
  "fst (processClaims post parse llmClient claims w) =
     fst (processClaims_loop post parse llmClient (length claims) claims ([], 0, w))"
  by (simp add: processClaims_def split: prod.splits)

lemma processClaims_world:
  "snd (processClaims post parse llmClient claims w) =
     emit LineFeed
       (snd (snd (processClaims_loop post parse llmClient (length claims) claims ([], 0, w))))"
  by (simp add: processClaims_def split: prod.splits)

lemma pushed_keys:
  "(\<lambda>r. (id r, denial_note r))
     (case fst (classifyDenial post parse llmClient claim w) of
        Inr output \<Rightarrow> output
      | Inl e \<Rightarrow> failed_output claim e) =
   (id claim, denial_note claim)"
  using classifyDenial_Inr [of post parse llmClient claim w]
  by (cases "fst (classifyDenial post parse llmClient claim w)")
     (simp_all add: failed_output_def spread_def)

lemma processClaims_loop_keys:
  "map (\<lambda>r. (id r, denial_note r))
     (fst (processClaims_loop post parse llmClient total_n xs (results, processed, w))) =
   map (\<lambda>r. (id r, denial_note r)) results @ map (\<lambda>r. (id r, denial_note r)) xs"
proof (induction xs arbitrary: results processed w)
  case Nil
  show ?case by simp
next
  case (Cons x xs)
  show ?case
    unfolding processClaims_loop_step Cons.IH
    using pushed_keys [where post = post and parse = parse and llmClient = llmClient
                         and claim = x and w = "emit (Classify x) w"]
    by simp
qed

text \<open>
  C1. Whatever the transport answers and the parser returns, \<^verbatim>\<open>processClaims\<close>
  returns as many records as there are claims, and the records carry the \<^verbatim>\<open>id\<close>
  and the \<^verbatim>\<open>denial_note\<close> of the claims in the order of the input.
\<close>

theorem processClaims_same_length_and_order:
  "length (fst (processClaims post parse llmClient claims w)) = length claims \<and>
   map (\<lambda>output. (id output, denial_note output))
     (fst (processClaims post parse llmClient claims w)) =
   map (\<lambda>claim. (id claim, denial_note claim)) claims"
proof -
  have keys: "map (\<lambda>output. (id output, denial_note output))
     (fst (processClaims post parse llmClient claims w)) =
   map (\<lambda>claim. (id claim, denial_note claim)) claims"
    unfolding processClaims_results processClaims_loop_keys by simp
  from keys have "length (map (\<lambda>output. (id output, denial_note output))
     (fst (processClaims post parse llmClient claims w))) =
     length (map (\<lambda>claim. (id claim, denial_note claim)) claims)"
    by (rule arg_cong)
  then have "length (fst (processClaims post parse llmClient claims w)) = length claims"
    by simp
  with keys show ?thesis by blast
qed

theorem processClaims_same_length_and_order_witness:
  "length (fst (processClaims one_reply_then_timeouts test_parse test_config
                  [claim_C1, claim_C2] fresh_world)) = 2 \<and>
   map (\<lambda>output. (id output, denial_note output))
     (fst (processClaims one_reply_then_timeouts test_parse test_config
             [claim_C1, claim_C2] fresh_world)) =
   [(''C1'', ''CPT code invalid''), (''C2'', ''Patient was not eligible'')]"
  using processClaims_same_length_and_order
    [of one_reply_then_timeouts test_parse test_config "[claim_C1, claim_C2]" fresh_world]
  by (simp add: claim_C1_def claim_C2_def)

text \<open>The record at index \<open>i\<close> is the one pushed for the claim at index \<open>i\<close>.\<close>

lemma processClaims_nth:
  assumes "i < length claims"
  shows "fst (processClaims post parse llmClient claims w) ! i =
           (case attempt_at post parse llmClient claims w i of
              Inr output \<Rightarrow> output
            | Inl e \<Rightarrow> failed_output (claims ! i) e)"
proof -
  let ?loop = "processClaims_loop post parse llmClient (length claims)"
  obtain rs k wi where pre: "?loop (take i claims) ([], 0, w) = (rs, k, wi)"
    by (cases "?loop (take i claims) ([], 0, w)")
  have wi: "wi = world_before post parse llmClient claims w i"
    by (simp add: world_before_def pre)
  from processClaims_loop_results [of post parse llmClient "length claims" "take i claims" "[]" 0 w]
  have len: "length rs = i"
    using assms by (simp add: pre)
  let ?out = "case attempt_at post parse llmClient claims w i of
                Inr output \<Rightarrow> output
              | Inl e \<Rightarrow> failed_output (claims ! i) e"
  have split: "claims = take i claims @ claims ! i # drop (Suc i) claims"
    using assms by (rule id_take_nth_drop)
  have "?loop claims ([], 0, w) = ?loop (claims ! i # drop (Suc i) claims) (rs, k, wi)"
    by (subst split) (simp only: processClaims_loop_append pre)
  also have "\<dots> = ?loop (drop (Suc i) claims)
      (rs @ [?out], k + 1,
       if k + 1 < length claims
       then emit (Pacing 500) (emit (Progress (k + 1) (length claims))
              (snd (classifyDenial post parse llmClient (claims ! i)
                      (emit (Classify (claims ! i)) wi))))
       else emit (Progress (k + 1) (length claims))
              (snd (classifyDenial post parse llmClient (claims ! i)
                      (emit (Classify (claims ! i)) wi))))"
    unfolding processClaims_loop_step attempt_at_def wi ..
  finally have run: "?loop claims ([], 0, w) = ?loop (drop (Suc i) claims)
      (rs @ [?out], k + 1,
       if k + 1 < length claims
       then emit (Pacing 500) (emit (Progress (k + 1) (length claims))
              (snd (classifyDenial post parse llmClient (claims ! i)
                      (emit (Classify (claims ! i)) wi))))
       else emit (Progress (k + 1) (length claims))
              (snd (classifyDenial post parse llmClient (claims ! i)
                      (emit (Classify (claims ! i)) wi))))" .
  obtain more where more: "fst (?loop claims ([], 0, w)) = (rs @ [?out]) @ more"
    unfolding run using processClaims_loop_results by blast
  show ?thesis
    unfolding processClaims_results more using len by (simp add: nth_append)
qed

lemma processClaims_loop_classified:
  "classified (trace (snd (snd (processClaims_loop post parse llmClient total_n xs
                                  (results, processed, w))))) =
   classified (trace w) @ xs"
proof (induction xs arbitrary: results processed w)
  case Nil
  show ?case by simp
next
  case (Cons x xs)
  obtain evs where evs:
    "trace (snd (classifyDenial post parse llmClient x (emit (Classify x) w))) =
       trace (emit (Classify x) w) @ evs" "list_all is_transport evs"
    using classifyDenial_trace by blast
  show ?case
    unfolding processClaims_loop_step Cons.IH
    by (simp add: evs classified_transport)
qed

lemma pacing_between_Cons:
  "pacing_between (claim # rest) =
     Classify claim # (if rest = [] then [] else Pacing 500 # pacing_between rest)"
  by (cases rest) simp_all

lemma runner_steps_single:
  "runner_steps [] = []"
  "runner_steps (ev # evs) = (if is_step ev then ev # runner_steps evs else runner_steps evs)"
  by (simp_all add: runner_steps_def)

lemma processClaims_loop_steps:
  "processed + length xs = total_n \<Longrightarrow>
   runner_steps (trace (snd (snd (processClaims_loop post parse llmClient total_n xs
                                    (results, processed, w))))) =
   runner_steps (trace w) @ pacing_between xs"
proof (induction xs arbitrary: results processed w)
  case Nil
  show ?case by simp
next
  case (Cons x xs)
  obtain evs where evs:
    "trace (snd (classifyDenial post parse llmClient x (emit (Classify x) w))) =
       trace (emit (Classify x) w) @ evs" "list_all is_transport evs"
    using classifyDenial_trace by blast
  have more: "processed + 1 < total_n \<longleftrightarrow> xs \<noteq> []"
    using Cons.prems by auto
  have rest: "(processed + 1) + length xs = total_n"
    using Cons.prems by simp
  show ?case
    unfolding processClaims_loop_step Cons.IH [OF rest] pacing_between_Cons more
    by (simp add: evs runner_steps_transport runner_steps_single)
qed

lemma processClaims_loop_pacings:
  "processed + length xs = total_n \<Longrightarrow>
   pacings (trace (snd (snd (processClaims_loop post parse llmClient total_n xs
                               (results, processed, w))))) =
   pacings (trace w) @ replicate (length xs - 1) 500"
proof (induction xs arbitrary: results processed w)
  case Nil
  show ?case by simp
next
  case (Cons x xs)
  obtain evs where evs:
    "trace (snd (classifyDenial post parse llmClient x (emit (Classify x) w))) =
       trace (emit (Classify x) w) @ evs" "list_all is_transport evs"
    using classifyDenial_trace by blast
  have more: "processed + 1 < total_n \<longleftrightarrow> xs \<noteq> []"
    using Cons.prems by auto
  have rest: "(processed + 1) + length xs = total_n"
    using Cons.prems by simp
  show ?case
  proof (cases xs)
    case Nil
    then show ?thesis
      unfolding processClaims_loop_step using more
      by (simp add: evs pacings_transport)
  next
    case (Cons y ys)
    then have "replicate (length (x # xs) - 1) (500 :: nat) =
                 500 # replicate (length xs - 1) 500"
      by simp
    then show ?thesis
      unfolding processClaims_loop_step Cons.IH [OF rest] using more Cons
      by (simp add: evs pacings_transport)
  qed
qed

text \<open>
  The \<^verbatim>\<open>error\<close> of the record at index \<open>i\<close>: the failure's message when
  classifying the claim failed, and otherwise what the claim itself holds under
  the key \<^verbatim>\<open>error\<close>.
\<close>

lemma processClaims_error_field:
  assumes "i < length claims"
  shows "error (fst (processClaims post parse llmClient claims w) ! i) =
           (case attempt_at post parse llmClient claims w i of
              Inl e \<Rightarrow> Some (JStr (message_or_error e))
            | Inr out \<Rightarrow> map_of (others (claims ! i)) ''error'')"
proof (cases "attempt_at post parse llmClient claims w i")
  case (Inl e)
  then show ?thesis
    by (simp add: processClaims_nth [OF assms] failed_output_def)
next
  case (Inr out)
  then have "error out = map_of (others (claims ! i)) ''error''"
    unfolding attempt_at_def using classifyDenial_Inr by blast
  with Inr show ?thesis
    by (simp add: processClaims_nth [OF assms])
qed

text \<open>
  C2. When classifying the claim at index \<open>i\<close> succeeds and that claim carries a
  key \<^verbatim>\<open>error\<close> of its own, the record \<^verbatim>\<open>processClaims\<close> returns at index \<open>i\<close>
  is the one \<^verbatim>\<open>classifyDenial\<close> returned, and its \<^verbatim>\<open>error\<close> is set, to the
  value the claim carried.
\<close>

theorem processClaims_stale_error:
  assumes "i < length claims"
      and "attempt_at post parse llmClient claims w i = Inr out"
      and "map_of (others (claims ! i)) ''error'' = Some v"
  shows "fst (processClaims post parse llmClient claims w) ! i = out \<and>
         error (fst (processClaims post parse llmClient claims w) ! i) = Some v"
  using processClaims_nth [OF assms(1), of post parse llmClient w]
    processClaims_error_field [OF assms(1), of post parse llmClient w] assms(2,3)
  by simp

text \<open>
  The batch of the one claim
  \<^verbatim>\<open>{"id":"C1","denial_note":"CPT code invalid","error":"stale"}\<close>, answered with
  the reply of the scenario: classifying it succeeds, and its record has the
  \<^verbatim>\<open>error\<close> set and a \<^verbatim>\<open>categories\<close> that is not empty.
\<close>

theorem processClaims_stale_error_witness:
  "0 < length [stale_claim] \<and>
   attempt_at one_reply test_parse test_config [stale_claim] fresh_world 0 =
     Inr \<lparr>id = ''C1'', denial_note = ''CPT code invalid'', others = [],
          categories = Some (JArr [JStr ''Coding Error'']),
          extracted_fields =
            Some (JObj [(''payer'', JNull), (''cpt_codes'', JArr []),
                        (''suggested_action'', JStr ''Resubmit'')]),
          error = Some (JStr ''stale'')\<rparr> \<and>
   fst (processClaims one_reply test_parse test_config [stale_claim] fresh_world) ! 0 =
     \<lparr>id = ''C1'', denial_note = ''CPT code invalid'', others = [],
      categories = Some (JArr [JStr ''Coding Error'']),
      extracted_fields =
        Some (JObj [(''payer'', JNull), (''cpt_codes'', JArr []),
                    (''suggested_action'', JStr ''Resubmit'')]),
      error = Some (JStr ''stale'')\<rparr> \<and>
   error (fst (processClaims one_reply test_parse test_config [stale_claim] fresh_world) ! 0) =
     Some (JStr ''stale'')"
proof -
  have i: "0 < length [stale_claim]"
    by simp
  have valid: "parseLLMResponse test_parse coding_error_text = Inr coding_error_reply"
    using test_parse_coding_error first_violation_coding_error by (rule parseLLMResponse_valid)
  have classified_as:
    "fst (classifyDenial one_reply test_parse test_config stale_claim
            (emit (Classify stale_claim) fresh_world)) =
     Inr \<lparr>id = ''C1'', denial_note = ''CPT code invalid'', others = [],
          categories = Some (JArr [JStr ''Coding Error'']),
          extracted_fields =
            Some (JObj [(''payer'', JNull), (''cpt_codes'', JArr []),
                        (''suggested_action'', JStr ''Resubmit'')]),
          error = Some (JStr ''stale'')\<rparr>"
    by (simp add: classifyDenial_called [OF callAPI_one_reply(1)] valid spread_def
          stale_claim_def coding_error_reply_def)
  have attempt: "attempt_at one_reply test_parse test_config [stale_claim] fresh_world 0 =
     Inr \<lparr>id = ''C1'', denial_note = ''CPT code invalid'', others = [],
          categories = Some (JArr [JStr ''Coding Error'']),
          extracted_fields =
            Some (JObj [(''payer'', JNull), (''cpt_codes'', JArr []),
                        (''suggested_action'', JStr ''Resubmit'')]),
          error = Some (JStr ''stale'')\<rparr>"
    by (simp add: attempt_at_def world_before_def classified_as)
  have carried: "map_of (others ([stale_claim] ! 0)) ''error'' = Some (JStr ''stale'')"
    by (simp add: stale_claim_def)
  note run = processClaims_stale_error [OF i attempt carried]
  from i attempt run show ?thesis
    by blast
qed

text \<open>
  C7. Of the attempts and pacing waits of a run of \<^verbatim>\<open>processClaims\<close>, in order:
  each claim's classification is started once, and between two successive starts,
  whether the first ended in success or failure, there is one wait of 500 ms;
  there is none after the last. So a run over \<open>N\<close> claims, \<open>N\<close> at least 1, has
  \<open>N - 1\<close> pacing waits, each of 500 ms, and a run over no claim has none.
\<close>

theorem processClaims_pacing:
  "runner_steps (trace (snd (processClaims post parse llmClient claims w))) =
     runner_steps (trace w) @ pacing_between claims \<and>
   pacings (trace (snd (processClaims post parse llmClient claims w))) =
     pacings (trace w) @ replicate (length claims - 1) 500 \<and>
   (claims \<noteq> [] \<longrightarrow>
      length (pacings (trace (snd (processClaims post parse llmClient claims w)))) + 1 =
        length (pacings (trace w)) + length claims) \<and>
   (claims = [] \<longrightarrow>
      pacings (trace (snd (processClaims post parse llmClient claims w))) = pacings (trace w))"
proof -
  have total_n: "0 + length claims = length claims"
    by simp
  have steps: "runner_steps (trace (snd (processClaims post parse llmClient claims w))) =
     runner_steps (trace w) @ pacing_between claims"
    unfolding processClaims_world
    by (simp add: processClaims_loop_steps [OF total_n] runner_steps_single)
  have waits: "pacings (trace (snd (processClaims post parse llmClient claims w))) =
     pacings (trace w) @ replicate (length claims - 1) 500"
    unfolding processClaims_world
    by (simp add: processClaims_loop_pacings [OF total_n])
  have some: "claims \<noteq> [] \<longrightarrow>
      length (pacings (trace (snd (processClaims post parse llmClient claims w)))) + 1 =
        length (pacings (trace w)) + length claims"
    unfolding waits by (cases claims) simp_all
  have none: "claims = [] \<longrightarrow>
      pacings (trace (snd (processClaims post parse llmClient claims w))) = pacings (trace w)"
    unfolding waits by simp
  from steps waits some none show ?thesis by blast
qed

theorem processClaims_pacing_witness:
  "runner_steps (trace (snd (processClaims one_reply_then_timeouts test_parse test_config
                               [claim_C1, claim_C2] fresh_world))) =
     [Classify claim_C1, Pacing 500, Classify claim_C2] \<and>
   pacings (trace (snd (processClaims one_reply_then_timeouts test_parse test_config
                          [claim_C1, claim_C2] fresh_world))) = [500]"
  using processClaims_pacing
    [of one_reply_then_timeouts test_parse test_config "[claim_C1, claim_C2]" fresh_world]
  by (simp add: fresh_world_def runner_steps_single)

end
